theory Spec2Isabelle
  imports Main
begin

section \<open>Errors\<close>

text \<open>
  The exceptions the modelled code raises or handles. \<open>UnexpectedType\<close> is a kind of
  \<open>NotParseable\<close>: \<open>SearchKey.parse\<close> lists \<open>except UnexpectedType: raise\<close> before
  \<open>except NotParseable: pass\<close>, which only has an effect if the first is a subclass of
  the second. \<open>RecursionError\<close> is what Python raises when the interpreter's recursion
  budget is used up; the parser model takes that budget as an argument.
\<close>

datatype error =
    NotParseable
  | UnexpectedType
  | TypeError
  | AttributeError
  | UnicodeDecodeError
  | RecursionError
  | MailboxNotFound string
  | MailboxReadOnly string

definition is_NotParseable :: "error \<Rightarrow> bool" where
  "is_NotParseable e = (e = NotParseable \<or> e = UnexpectedType)"

section \<open>Search keys (pymap/parsing/specials/searchkey.py)\<close>

subsection \<open>Data\<close>

text \<open>
  Modelled from the spec: \<open>FetchRequirement\<close> (pymap/parsing/specials/fetchattr.py is
  not among the sources). The spec names four levels, none, \<open>METADATA\<close>, \<open>HEADERS\<close>
  and \<open>BODY\<close>, "the minimum data" a key needs, and a reduction that is the maximum.
\<close>

datatype FetchRequirement = NONE | METADATA | HEADERS | BODY

fun req_rank :: "FetchRequirement \<Rightarrow> nat" where
  "req_rank NONE = 0"
| "req_rank METADATA = 1"
| "req_rank HEADERS = 2"
| "req_rank BODY = 3"

text \<open>
  Modelled from the spec: \<open>FetchRequirement.reduce\<close>, "reduction (max)" of a set of
  requirements; the empty set reduces to \<open>NONE\<close>.
\<close>

definition reduce :: "FetchRequirement set \<Rightarrow> FetchRequirement" where
  "reduce reqs =
     (if BODY \<in> reqs then BODY
      else if HEADERS \<in> reqs then HEADERS
      else if METADATA \<in> reqs then METADATA
      else NONE)"

text \<open>
  Modelled from the spec: \<open>Flag\<close> (pymap/parsing/specials/flag.py is not among the
  sources). A flag is a system flag (\<open>\Seen\<close>, \<open>\Deleted\<close>, \<open>\Recent\<close>, ...) or a
  keyword; \<open>is_system\<close> tells them apart.
\<close>

datatype Flag = System string | Keyword string

fun is_system :: "Flag \<Rightarrow> bool" where
  "is_system (System _) = True"
| "is_system (Keyword _) = False"

abbreviation Seen :: Flag where "Seen \<equiv> System ''Seen''"
abbreviation Deleted :: Flag where "Deleted \<equiv> System ''Deleted''"
abbreviation Recent :: Flag where "Recent \<equiv> System ''Recent''"

text \<open>
  Modelled from the spec: \<open>SequenceSet\<close> (pymap/parsing/specials/sequenceset.py is not
  among the sources), "IMAP set expression over UIDs or sequence numbers, possibly
  containing \<open>*\<close>": a list of ranges and the addressing mode.
\<close>

datatype seq_num = Num nat | Star

datatype SequenceSet = SequenceSet (ranges: "(seq_num \<times> seq_num) list") (uid_mode: bool)

text \<open>The value \<open>datetime.strptime(_, '%d-%b-%Y')\<close> returns: day, month, year.\<close>

datatype datetime = Datetime (day: nat) (month: nat) (year: nat)

text \<open>
  \<open>SearchKey\<close> with its three attributes. The filter is the union \<open>_FilterType\<close>; the
  accessors \<open>filter_key_set\<close>, \<open>filter_key_or\<close>, ... check its run-time type, so the
  model keeps one constructor per type. A key set is kept as the list of its members.
\<close>

datatype SearchKey = SearchKey (key: string) (filter_of: filter_t) (inverse: bool)
and filter_t =
    FNone
  | FSequenceSet SequenceSet
  | FKeySet "SearchKey list"
  | FKeyOr SearchKey SearchKey
  | FHeader string string
  | FFlag Flag
  | FDatetime datetime
  | FInt nat
  | FStr string

subsection \<open>\<open>SearchKey.requirement\<close> (lines 50-69)\<close>

text \<open>
  The set comprehension over the members of a key set evaluates every member's
  requirement in turn; the first exception ends it.
\<close>

fun collect :: "(error + 'a) list \<Rightarrow> error + 'a list" where
  "collect [] = Inr []"
| "collect (Inl e # rs) = Inl e"
| "collect (Inr r # rs) = (case collect rs of Inl e \<Rightarrow> Inl e | Inr xs \<Rightarrow> Inr (r # xs))"

fun requirement :: "SearchKey \<Rightarrow> error + FetchRequirement" where
  "requirement (SearchKey key_name flt inverse_bit) =
     (if key_name = ''ALL'' then Inr NONE
      else if key_name = ''KEYSET'' then
        (case flt of
           FKeySet ks \<Rightarrow>
             (case collect (map requirement ks) of
                Inl e \<Rightarrow> Inl e
              | Inr keyset_reqs \<Rightarrow> Inr (reduce (set keyset_reqs)))
         | _ \<Rightarrow> Inl TypeError)
      else if key_name = ''OR'' then
        (case flt of
           FKeyOr left right \<Rightarrow>
             (case requirement left of
                Inl e \<Rightarrow> Inl e
              | Inr l \<Rightarrow>
                  (case requirement right of
                     Inl e \<Rightarrow> Inl e
                   | Inr r \<Rightarrow> Inr (reduce {l, r})))
         | FHeader _ _ \<Rightarrow> Inl AttributeError
         | _ \<Rightarrow> Inl TypeError)
      else if key_name \<in> set [''SENTBEFORE'', ''SENTON'', ''SENTSINCE'', ''BCC'',
                               ''CC'', ''FROM'', ''SUBJECT'', ''TO'', ''HEADER''] then
        Inr HEADERS
      else if key_name \<in> set [''BODY'', ''TEXT''] then Inr BODY
      else Inr METADATA)"

subsection \<open>\<open>SearchKey.not_inverse\<close> (lines 71-74)\<close>

definition not_inverse :: "SearchKey \<Rightarrow> SearchKey" where
  "not_inverse k = SearchKey (key k) (filter_of k) (\<not> inverse k)"

subsection \<open>The sibling parsers\<close>

text \<open>
  \<open>Space\<close>, \<open>SequenceSet\<close>, \<open>ListP\<close>, \<open>Atom\<close>, \<open>AString\<close>, \<open>Flag\<close>, \<open>Number\<close>,
  \<open>ExpectedParseable\<close> and the codec behind \<open>bytes.decode\<close> and \<open>datetime.strptime\<close>
  are not among the sources. \<open>SearchKey.parse\<close> is modelled over any implementation of
  them: each is a function from the buffer to an error or to the parsed value and the
  rest of the buffer, under the \<open>params\<close> the caller passed.
  \<^item> \<open>SequenceSet_parse P True\<close> is the call with \<open>params.copy(uid=True)\<close>,
    \<open>SequenceSet_parse P False\<close> the call with the caller's \<open>params\<close>;
  \<^item> \<open>ListP_parse P elem\<close> is the call with \<open>params.copy(list_expected=[SearchKey])\<close>
    followed by \<open>get_as(SearchKey)\<close>; \<open>elem\<close> is the parser it runs on every member
    of the list, \<open>SearchKey.parse\<close> itself;
  \<^item> \<open>Expected_parse P\<close> is \<open>ExpectedParseable.parse\<close> with
    \<open>params.copy(expected=[Atom, QuotedString])\<close>, returning the parsed value's bytes;
  \<^item> \<open>decode P\<close> is \<open>bytes.decode(params.charset or 'ascii')\<close>;
  \<^item> \<open>strptime P\<close> is \<open>datetime.strptime(_, '%d-%b-%Y')\<close>, \<open>None\<close> for its
    \<open>ValueError\<close>.
\<close>

record parsers =
  Space_parse :: "string \<Rightarrow> error + (nat \<times> string)"
  SequenceSet_parse :: "bool \<Rightarrow> string \<Rightarrow> error + (SequenceSet \<times> string)"
  ListP_parse :: "(string \<Rightarrow> error + (SearchKey \<times> string)) \<Rightarrow> string
                    \<Rightarrow> error + (SearchKey list \<times> string)"
  Atom_parse :: "string \<Rightarrow> error + (string \<times> string)"
  AString_parse :: "string \<Rightarrow> error + (string \<times> string)"
  decode :: "string \<Rightarrow> error + string"
  Expected_parse :: "string \<Rightarrow> error + (string \<times> string)"
  strptime :: "string \<Rightarrow> datetime option"
  Flag_parse :: "string \<Rightarrow> error + (Flag \<times> string)"
  Number_parse :: "string \<Rightarrow> error + (nat \<times> string)"

text \<open>Sequencing of calls that may raise: the first error ends the function.\<close>

definition and_then :: "error + 'a \<Rightarrow> ('a \<Rightarrow> error + 'b) \<Rightarrow> error + 'b" where
  "and_then r f = (case r of Inl e \<Rightarrow> Inl e | Inr v \<Rightarrow> f v)"

subsection \<open>Bytes\<close>

text \<open>\<open>bytes.upper\<close>: the ASCII letters \<open>a\<close> to \<open>z\<close> become \<open>A\<close> to \<open>Z\<close>.\<close>

definition upper_char :: "char \<Rightarrow> char" where
  "upper_char c =
     (let n = (of_char c :: nat) in if 97 \<le> n \<and> n \<le> 122 then char_of (n - 32) else c)"

definition upper :: "string \<Rightarrow> string" where
  "upper s = map upper_char s"

text \<open>\<open>str(value, 'ascii', 'ignore')\<close>: the bytes above 127 are dropped.\<close>

definition ascii_ignore :: "string \<Rightarrow> string" where
  "ascii_ignore s = filter (\<lambda>c. (of_char c :: nat) < 128) s"

definition is_space :: "char \<Rightarrow> bool" where
  "is_space c = (c = CHR '' '')"

text \<open>
  \<open>_not_pattern.match(buf)\<close> for \<open>re.compile(br'NOT +', re.I)\<close>: the letters of
  \<open>NOT\<close> in either case, then one or more spaces, at the start of the buffer. The
  result is \<open>match.end(0)\<close>, the number of bytes matched.
\<close>

definition not_pattern_match :: "string \<Rightarrow> nat option" where
  "not_pattern_match buf =
     (if upper (take 3 buf) = ''NOT'' \<and> take 1 (drop 3 buf) = '' ''
      then Some (3 + length (takeWhile is_space (drop 3 buf)))
      else None)"

subsection \<open>\<open>SearchKey.parse\<close> (lines 129-214)\<close>

definition parse_astring_filter :: "parsers \<Rightarrow> string \<Rightarrow> error + (string \<times> string)" where
  "parse_astring_filter P buf =
     and_then (AString_parse P buf) (\<lambda>(ret, after).
     and_then (decode P ret) (\<lambda>s. Inr (s, after)))"

definition parse_date_filter :: "parsers \<Rightarrow> string \<Rightarrow> error + (datetime \<times> string)" where
  "parse_date_filter P buf =
     and_then (Expected_parse P buf) (\<lambda>(atom, after).
       (case strptime P (ascii_ignore atom) of
          None \<Rightarrow> Inl NotParseable
        | Some date \<Rightarrow> Inr (date, after)))"

text \<open>
  Lines 147-155: the optional leading space (a \<open>NotParseable\<close> of \<open>Space.parse\<close> is
  passed over, any other error is raised) and the optional \<open>NOT\<close> prefix.
\<close>

definition skip_space :: "parsers \<Rightarrow> string \<Rightarrow> error + string" where
  "skip_space P buf =
     (case Space_parse P buf of
        Inr (_, buf') \<Rightarrow> Inr buf'
      | Inl e \<Rightarrow> if is_NotParseable e then Inr buf else Inl e)"

definition strip_not :: "string \<Rightarrow> bool \<times> string" where
  "strip_not buf =
     (case not_pattern_match buf of
        Some end0 \<Rightarrow> (True, drop end0 buf)
      | None \<Rightarrow> (False, buf))"

text \<open>
  Lines 156-214: the key itself. The parser calls itself for the two operands of \<open>OR\<close>
  and, through \<open>ListP.parse\<close>, for the members of a parenthesised list; \<open>self\<close> is that
  recursive call.
\<close>

definition parse_key ::
  "parsers \<Rightarrow> (string \<Rightarrow> error + (SearchKey \<times> string)) \<Rightarrow> bool \<Rightarrow> string
     \<Rightarrow> error + (SearchKey \<times> string)" where
  "parse_key P self inverse_bit buf =
     (case SequenceSet_parse P False buf of
        Inr (seq_set, buf) \<Rightarrow> Inr (SearchKey ''SEQSET'' (FSequenceSet seq_set) inverse_bit, buf)
      | Inl e \<Rightarrow>
     if \<not> is_NotParseable e then Inl e else
     (case ListP_parse P self buf of
        Inr (key_list, buf) \<Rightarrow> Inr (SearchKey ''KEYSET'' (FKeySet key_list) inverse_bit, buf)
      | Inl e \<Rightarrow>
     if e = UnexpectedType \<or> \<not> is_NotParseable e then Inl e else
     and_then (Atom_parse P buf) (\<lambda>(atom, after).
       let key = upper atom in
       if key \<in> set [''ALL'', ''ANSWERED'', ''DELETED'', ''FLAGGED'', ''NEW'', ''OLD'',
                       ''RECENT'', ''SEEN'', ''UNANSWERED'', ''UNDELETED'',
                       ''UNFLAGGED'', ''UNSEEN'', ''DRAFT'', ''UNDRAFT''] then
         Inr (SearchKey key FNone inverse_bit, after)
       else if key \<in> set [''BCC'', ''BODY'', ''CC'', ''FROM'', ''SUBJECT'', ''TEXT'',
                            ''TO''] then
         and_then (Space_parse P after) (\<lambda>(_, buf).
         and_then (parse_astring_filter P buf) (\<lambda>(filter', buf).
         Inr (SearchKey key (FStr filter') inverse_bit, buf)))
       else if key \<in> set [''BEFORE'', ''ON'', ''SINCE'', ''SENTBEFORE'', ''SENTON'',
                            ''SENTSINCE''] then
         and_then (Space_parse P after) (\<lambda>(_, buf).
         and_then (parse_date_filter P buf) (\<lambda>(filter', buf).
         Inr (SearchKey key (FDatetime filter') inverse_bit, buf)))
       else if key \<in> set [''KEYWORD'', ''UNKEYWORD''] then
         and_then (Space_parse P after) (\<lambda>(_, buf).
         and_then (Flag_parse P buf) (\<lambda>(flag, after_buf).
         if is_system flag then Inl NotParseable
         else Inr (SearchKey key (FFlag flag) inverse_bit, after_buf)))
       else if key \<in> set [''LARGER'', ''SMALLER''] then
         and_then (Space_parse P after) (\<lambda>(_, buf).
         and_then (Number_parse P buf) (\<lambda>(num, buf).
         Inr (SearchKey key (FInt num) inverse_bit, buf)))
       else if key = ''UID'' then
         and_then (Space_parse P after) (\<lambda>(_, buf).
         and_then (SequenceSet_parse P True buf) (\<lambda>(seq_set, buf).
         Inr (SearchKey ''SEQSET'' (FSequenceSet seq_set) inverse_bit, buf)))
       else if key = ''HEADER'' then
         and_then (Space_parse P after) (\<lambda>(_, buf).
         and_then (parse_astring_filter P buf) (\<lambda>(header_field, buf).
         and_then (Space_parse P buf) (\<lambda>(_, buf).
         and_then (parse_astring_filter P buf) (\<lambda>(header_value, buf).
         Inr (SearchKey key (FHeader header_field header_value) inverse_bit, buf)))))
       else if key = ''OR'' then
         and_then (Space_parse P after) (\<lambda>(_, buf).
         and_then (self buf) (\<lambda>(or1, buf).
         and_then (Space_parse P buf) (\<lambda>(_, buf).
         and_then (self buf) (\<lambda>(or2, buf).
         Inr (SearchKey key (FKeyOr or1 or2) inverse_bit, buf)))))
       else Inl NotParseable)))"

text \<open>
  The whole of \<open>SearchKey.parse\<close>. The second argument is the recursion depth still
  available to the interpreter; at depth \<open>0\<close> the call is a \<open>RecursionError\<close>.
\<close>

primrec parse :: "parsers \<Rightarrow> nat \<Rightarrow> string \<Rightarrow> error + (SearchKey \<times> string)" where
  "parse P 0 buf = Inl RecursionError"
| "parse P (Suc depth) buf =
     and_then (skip_space P buf) (\<lambda>buf.
       (case strip_not buf of (inverse_bit, buf) \<Rightarrow>
          parse_key P (parse P depth) inverse_bit buf))"

subsection \<open>A reference implementation of the sibling parsers\<close>

text \<open>
  Modelled from the spec: the parsers of pymap/parsing that \<open>SearchKey.parse\<close> calls
  and that are not among the sources. The spec fixes the search grammar as "the
  IMAP4rev1 search-key ABNF"; these follow its tokens: a run of spaces, an atom, a
  number, a quoted or atom string, a flag with an optional backslash, a sequence set of
  numbers, \<open>*\<close> and ranges, a parenthesised list of members separated by spaces. They
  are what the general theorems below are instantiated with.
\<close>

definition Space_parse_ref :: "string \<Rightarrow> error + (nat \<times> string)" where
  "Space_parse_ref buf =
     (let n = length (takeWhile is_space buf)
      in if n = 0 then Inl NotParseable else Inr (n, drop n buf))"

definition atom_char :: "char \<Rightarrow> bool" where
  "atom_char c =
     (let n = (of_char c :: nat)
      in 32 < n \<and> n < 127 \<and> c \<notin> set [CHR ''('', CHR '')'', CHR ''{'', CHR ''%'', CHR ''*'',
                                           CHR 0x22, CHR 0x5C, CHR '']''])"

definition Atom_parse_ref :: "string \<Rightarrow> error + (string \<times> string)" where
  "Atom_parse_ref buf =
     (let a = takeWhile atom_char buf
      in if a = [] then Inl NotParseable else Inr (a, drop (length a) buf))"

definition is_digit :: "char \<Rightarrow> bool" where
  "is_digit c = (let n = (of_char c :: nat) in 48 \<le> n \<and> n \<le> 57)"

definition nat_of_digits :: "string \<Rightarrow> nat" where
  "nat_of_digits ds = foldl (\<lambda>acc c. 10 * acc + (of_char c - 48)) 0 ds"

definition Number_parse_ref :: "string \<Rightarrow> error + (nat \<times> string)" where
  "Number_parse_ref buf =
     (let ds = takeWhile is_digit buf
      in if ds = [] then Inl NotParseable else Inr (nat_of_digits ds, drop (length ds) buf))"

definition AString_parse_ref :: "string \<Rightarrow> error + (string \<times> string)" where
  "AString_parse_ref buf =
     (if take 1 buf = [CHR 0x22] then
        (let body = takeWhile (\<lambda>c. c \<noteq> CHR 0x22) (drop 1 buf);
             rest = drop (Suc (length body)) buf
         in if take 1 rest = [CHR 0x22] then Inr (body, drop 1 rest) else Inl NotParseable)
      else Atom_parse_ref buf)"

definition decode_ref :: "string \<Rightarrow> error + string" where
  "decode_ref s = (if \<forall>c \<in> set s. (of_char c :: nat) < 128 then Inr s else Inl UnicodeDecodeError)"

definition Flag_parse_ref :: "string \<Rightarrow> error + (Flag \<times> string)" where
  "Flag_parse_ref buf =
     (if take 1 buf = [CHR 0x5C] then
        (case Atom_parse_ref (drop 1 buf) of
           Inl e \<Rightarrow> Inl e
         | Inr (a, rest) \<Rightarrow> Inr (System a, rest))
      else
        (case Atom_parse_ref buf of
           Inl e \<Rightarrow> Inl e
         | Inr (a, rest) \<Rightarrow> Inr (Keyword a, rest)))"

definition seq_num_parse :: "string \<Rightarrow> (seq_num \<times> string) option" where
  "seq_num_parse buf =
     (if take 1 buf = ''*'' then Some (Star, drop 1 buf)
      else (let ds = takeWhile is_digit buf
            in if ds = [] then None else Some (Num (nat_of_digits ds), drop (length ds) buf)))"

definition seq_range_parse :: "string \<Rightarrow> ((seq_num \<times> seq_num) \<times> string) option" where
  "seq_range_parse buf =
     (case seq_num_parse buf of
        None \<Rightarrow> None
      | Some (a, rest) \<Rightarrow>
          if take 1 rest = '':'' then
            (case seq_num_parse (drop 1 rest) of
               None \<Rightarrow> None
             | Some (b, rest') \<Rightarrow> Some ((a, b), rest'))
          else Some ((a, a), rest))"

fun seq_ranges_parse :: "nat \<Rightarrow> string \<Rightarrow> ((seq_num \<times> seq_num) list \<times> string) option" where
  "seq_ranges_parse 0 buf = None"
| "seq_ranges_parse (Suc n) buf =
     (case seq_range_parse buf of
        None \<Rightarrow> None
      | Some (r, rest) \<Rightarrow>
          if take 1 rest = '','' then
            (case seq_ranges_parse n (drop 1 rest) of
               None \<Rightarrow> None
             | Some (rs, rest') \<Rightarrow> Some (r # rs, rest'))
          else Some ([r], rest))"

definition SequenceSet_parse_ref :: "bool \<Rightarrow> string \<Rightarrow> error + (SequenceSet \<times> string)" where
  "SequenceSet_parse_ref uid_flag buf =
     (case seq_ranges_parse (length buf) buf of
        None \<Rightarrow> Inl NotParseable
      | Some (rs, rest) \<Rightarrow> Inr (SequenceSet rs uid_flag, rest))"

fun list_members ::
  "(string \<Rightarrow> error + (SearchKey \<times> string)) \<Rightarrow> nat \<Rightarrow> string \<Rightarrow> SearchKey list
     \<Rightarrow> error + (SearchKey list \<times> string)" where
  "list_members elem 0 buf acc = Inl NotParseable"
| "list_members elem (Suc n) buf acc =
     (let buf' = dropWhile is_space buf
      in if take 1 buf' = '')'' then Inr (rev acc, drop 1 buf')
         else (case elem buf of
                 Inl e \<Rightarrow> Inl e
               | Inr (k, rest) \<Rightarrow> list_members elem n rest (k # acc)))"

definition ListP_parse_ref ::
  "(string \<Rightarrow> error + (SearchKey \<times> string)) \<Rightarrow> string \<Rightarrow> error + (SearchKey list \<times> string)" where
  "ListP_parse_ref elem buf =
     (if take 1 buf = ''('' then list_members elem (Suc (length buf)) (drop 1 buf) []
      else Inl NotParseable)"

definition month_names :: "string list" where
  "month_names = [''JAN'', ''FEB'', ''MAR'', ''APR'', ''MAY'', ''JUN'',
                  ''JUL'', ''AUG'', ''SEP'', ''OCT'', ''NOV'', ''DEC'']"

fun index_of :: "'a \<Rightarrow> 'a list \<Rightarrow> nat option" where
  "index_of x [] = None"
| "index_of x (y # ys) = (if x = y then Some 0 else map_option Suc (index_of x ys))"

definition strptime_ref :: "string \<Rightarrow> datetime option" where
  "strptime_ref s =
     (let d = takeWhile is_digit s;
          r1 = drop (length d) s;
          m = take 3 (drop 1 r1);
          r2 = drop 4 r1;
          y = drop 1 r2
      in if d \<noteq> [] \<and> length d \<le> 2 \<and> take 1 r1 = ''-'' \<and> take 1 r2 = ''-''
            \<and> length y = 4 \<and> list_all is_digit y \<and> 1 \<le> nat_of_digits d
            \<and> nat_of_digits d \<le> 31
         then (case index_of (upper m) month_names of
                 None \<Rightarrow> None
               | Some i \<Rightarrow> Some (Datetime (nat_of_digits d) (Suc i) (nat_of_digits y)))
         else None)"

definition ref_parsers :: parsers where
  "ref_parsers =
     \<lparr> Space_parse = Space_parse_ref,
       SequenceSet_parse = SequenceSet_parse_ref,
       ListP_parse = ListP_parse_ref,
       Atom_parse = Atom_parse_ref,
       AString_parse = AString_parse_ref,
       decode = decode_ref,
       Expected_parse = AString_parse_ref,
       strptime = strptime_ref,
       Flag_parse = Flag_parse_ref,
       Number_parse = Number_parse_ref \<rparr>"

subsection \<open>Keys that differ in the inverse bit only\<close>

text \<open>
  Used to compare the results of parsing with and without the \<open>NOT\<close> prefix:
  \<open>with_inverse j k\<close> is \<open>k\<close> with its inverse bit set to \<open>j\<close>, and
  \<open>result_with_inverse\<close> does this to the key of a successful parse.
\<close>

definition with_inverse :: "bool \<Rightarrow> SearchKey \<Rightarrow> SearchKey" where
  "with_inverse j k = SearchKey (key k) (filter_of k) j"

definition result_with_inverse ::
  "bool \<Rightarrow> error + (SearchKey \<times> string) \<Rightarrow> error + (SearchKey \<times> string)" where
  "result_with_inverse j res =
     (case res of Inl e \<Rightarrow> Inl e | Inr (k, rest) \<Rightarrow> Inr (with_inverse j k, rest))"

section \<open>The session engine (pymap/backend/session.py)\<close>

subsection \<open>Messages, mailboxes and views\<close>

text \<open>
  Modelled from the spec: \<open>FlagOp\<close> (pymap/flags.py is not among the sources), the
  mode of a flag update, "mode \<open>\<in>\<close> {REPLACE, ADD, REMOVE}", and what applying it to a
  flag set means: the set is replaced by, extended by, or reduced by the given flags.
\<close>

datatype FlagOp = REPLACE | ADD | REMOVE

fun apply_op :: "FlagOp \<Rightarrow> Flag set \<Rightarrow> Flag set \<Rightarrow> Flag set" where
  "apply_op REPLACE old flag_set = flag_set"
| "apply_op ADD old flag_set = old \<union> flag_set"
| "apply_op REMOVE old flag_set = old - flag_set"

text \<open>
  Modelled from the spec: \<open>Message\<close> and \<open>LoadedMessage\<close> (pymap/backend/mailbox.py is
  not among the sources): "UID, permanent flags (persisted), a recent bit, parsed or
  raw content". A message the session holds is a copy of the stored one: a change of
  its flags reaches the store through \<open>save_flags\<close>.
\<close>

record Message =
  uid :: nat
  permanent_flags :: "Flag set"
  recent :: bool
  content :: string

text \<open>Modelled from the spec: \<open>AppendMessage\<close>, the content and flags of an APPEND.\<close>

record AppendMessage =
  am_content :: string
  am_flags :: "Flag set"

text \<open>
  Modelled from the spec: \<open>FetchAttribute\<close>; only its \<open>set_seen\<close> property is used.
\<close>

datatype FetchAttribute = FetchAttribute (attribute: string) (set_seen: bool)

text \<open>
  Modelled from the spec: \<open>SelectedMailbox\<close> (pymap/selected.py is not among the
  sources), the "selected view": name, read-only bit, UID validity, next UID, the
  permitted permanent flags, the session-flag table with its recent subset, the view
  map from UID to permanent flags (in sequence order), and the tombstone.
\<close>

record SelectedMailbox =
  sel_name :: string
  sel_readonly :: bool
  sel_uid_validity :: nat
  sel_next_uid :: nat
  sel_permanent_flags :: "Flag set"
  sel_session_flags :: "nat \<Rightarrow> Flag set"
  sel_recent :: "nat set"
  sel_messages :: "(nat \<times> Flag set) list"
  sel_deleted :: bool

text \<open>
  Modelled from the spec: the mailbox object of the backend (\<open>MailboxDataInterface\<close>):
  UID validity, next UID, read-only bit, the messages in sequence order, and the
  selected set: the live views (by reference) and the update event, kept as the
  number of times it was set. A name that resolves to no mailbox has
  \<open>mbx_exists = False\<close>.
\<close>

record Mailbox =
  mbx_exists :: bool
  mbx_readonly :: bool
  mbx_uid_validity :: nat
  mbx_next_uid :: nat
  mbx_messages :: "Message list"
  mbx_selected :: "nat list"
  mbx_updated :: nat

text \<open>
  What \<open>save_flags\<close> is handed as one positional argument: a message, a result triple
  \<open>(seq, uid, flags)\<close>, or a generator of messages.
\<close>

datatype pyarg =
    ArgMessage Message
  | ArgTriple nat nat "Flag set"
  | ArgGenerator "Message list"

text \<open>
  The calls the session makes on its collaborators, in the order it makes them. A
  mailbox is named by its name, a view by its reference.
\<close>

datatype event =
    Get_mailbox string bool
  | Items string
  | Find string SequenceSet nat
  | Parse_message string
  | Add string nat bool
  | Save_flags string "pyarg list"
  | Delete string "nat list"
  | Updated_set string
  | Set_deleted nat
  | Add_messages nat nat "Flag set"
  | Add_recent nat nat
  | Session_update nat nat "Flag set" FlagOp
  | Update_flags nat "Flag set" FlagOp

text \<open>
  The state the session works on: the mailboxes of the authenticated user by name, the
  mailbox a name would be created as under \<open>try_create\<close> (\<open>None\<close> when creation is
  not permitted), the view objects by reference, and the calls made so far. Views are
  shared objects: the view a session passes in may be the one registered in a
  mailbox's selected set.
\<close>

record world =
  mailboxes :: "string \<Rightarrow> Mailbox"
  creatable :: "string \<Rightarrow> Mailbox option"
  views :: "nat \<Rightarrow> SelectedMailbox"
  trace :: "event list"

definition log_event :: "event \<Rightarrow> world \<Rightarrow> world" where
  "log_event ev w = w\<lparr>trace := trace w @ [ev]\<rparr>"

definition upd_mailbox :: "string \<Rightarrow> (Mailbox \<Rightarrow> Mailbox) \<Rightarrow> world \<Rightarrow> world" where
  "upd_mailbox name f w = w\<lparr>mailboxes := (mailboxes w)(name := f (mailboxes w name))\<rparr>"

definition upd_view :: "nat \<Rightarrow> (SelectedMailbox \<Rightarrow> SelectedMailbox) \<Rightarrow> world \<Rightarrow> world" where
  "upd_view v f w = w\<lparr>views := (views w)(v := f (views w v))\<rparr>"

text \<open>A call that may raise returns the error or the value, and the state it left.\<close>

type_synonym 'a outcome = "(error + 'a) \<times> world"

definition bind_w :: "'a outcome \<Rightarrow> ('a \<Rightarrow> world \<Rightarrow> 'b outcome) \<Rightarrow> 'b outcome" where
  "bind_w r f = (case r of (Inl e, w) \<Rightarrow> (Inl e, w) | (Inr x, w) \<Rightarrow> f x w)"

subsection \<open>The backend and the view, as the spec describes them\<close>

text \<open>
  Modelled from the spec: \<open>MailboxSetInterface.get_mailbox\<close>, "resolve by name; fails
  with \<open>MailboxNotFound\<close> unless \<open>try_create\<close> and creation is permitted".
\<close>

definition get_mailbox :: "string \<Rightarrow> bool \<Rightarrow> world \<Rightarrow> string outcome" where
  "get_mailbox name try_create w =
     (let w1 = log_event (Get_mailbox name try_create) w
      in if mbx_exists (mailboxes w1 name) then (Inr name, w1)
         else if try_create then
           (case creatable w1 name of
              Some m \<Rightarrow> (Inr name, upd_mailbox name (\<lambda>_. m\<lparr>mbx_exists := True\<rparr>) w1)
            | None \<Rightarrow> (Inl (MailboxNotFound name), w1))
         else (Inl (MailboxNotFound name), w1))"

text \<open>Modelled from the spec: \<open>selected_set.any_selected\<close>, a live view if there is one.\<close>

definition any_selected :: "Mailbox \<Rightarrow> nat option" where
  "any_selected m = (case mbx_selected m of [] \<Rightarrow> None | v # _ \<Rightarrow> Some v)"

text \<open>Modelled from the spec: \<open>selected_set.updated.set()\<close>.\<close>

definition updated_set :: "string \<Rightarrow> world \<Rightarrow> world" where
  "updated_set mbx w =
     upd_mailbox mbx (\<lambda>m. m\<lparr>mbx_updated := Suc (mbx_updated m)\<rparr>) (log_event (Updated_set mbx) w)"

text \<open>Modelled from the spec: \<open>items()\<close>, "(UID, permanent-flag-set) pairs".\<close>

definition mbx_items :: "string \<Rightarrow> world \<Rightarrow> (nat \<times> Message) list \<times> world" where
  "mbx_items mbx w =
     (map (\<lambda>m. (uid m, m)) (mbx_messages (mailboxes w mbx)), log_event (Items mbx) w)"

text \<open>Modelled from the spec: \<open>parse_message(append_msg)\<close>; the UID is assigned by \<open>add\<close>.\<close>

definition mbx_parse_message :: "string \<Rightarrow> AppendMessage \<Rightarrow> world \<Rightarrow> Message \<times> world" where
  "mbx_parse_message mbx am w =
     (\<lparr>uid = 0, permanent_flags = am_flags am, recent = False, content = am_content am\<rparr>,
      log_event (Parse_message mbx) w)"

text \<open>
  Modelled from the spec: \<open>add(msg, recent=bool)\<close>: the message is stored under the
  mailbox's next UID, "monotonically assigned", with the given recent bit, and
  returned as stored.
\<close>

definition mbx_add :: "string \<Rightarrow> Message \<Rightarrow> bool \<Rightarrow> world \<Rightarrow> Message \<times> world" where
  "mbx_add mbx msg recent_bit w =
     (let n = mbx_next_uid (mailboxes w mbx);
          stored = msg\<lparr>uid := n, recent := recent_bit\<rparr>
      in (stored,
          upd_mailbox mbx
            (\<lambda>m. m\<lparr>mbx_next_uid := Suc n, mbx_messages := mbx_messages m @ [stored]\<rparr>)
            (log_event (Add mbx n recent_bit) w)))"

text \<open>
  Modelled from the spec: \<open>save_flags(msgs...)\<close>, which persists the flags and the
  recent bit of the messages it is given. The spec says nothing of an argument that
  is not a message; the model stores nothing for it.
\<close>

fun save_one :: "pyarg \<Rightarrow> Message list \<Rightarrow> Message list" where
  "save_one (ArgMessage msg) stored =
     map (\<lambda>s. if uid s = uid msg
                then s\<lparr>permanent_flags := permanent_flags msg, recent := recent msg\<rparr>
                else s) stored"
| "save_one _ stored = stored"

definition mbx_save_flags :: "string \<Rightarrow> pyarg list \<Rightarrow> world \<Rightarrow> world" where
  "mbx_save_flags mbx args w =
     upd_mailbox mbx (\<lambda>m. m\<lparr>mbx_messages := fold save_one args (mbx_messages m)\<rparr>)
       (log_event (Save_flags mbx args) w)"

text \<open>Modelled from the spec: \<open>delete(uids...)\<close>.\<close>

definition mbx_delete :: "string \<Rightarrow> nat list \<Rightarrow> world \<Rightarrow> world" where
  "mbx_delete mbx uids w =
     upd_mailbox mbx (\<lambda>m. m\<lparr>mbx_messages := filter (\<lambda>s. uid s \<notin> set uids) (mbx_messages m)\<rparr>)
       (log_event (Delete mbx uids) w)"

text \<open>
  Modelled from the spec: \<open>find(sequence_set, selected_view)\<close>, which "yields
  \<open>(seq, uid, loaded_message|None)\<close> honoring UID vs sequence-number addressing": the
  messages of the view, numbered from 1, that the sequence set names, each with the
  stored message of that UID, or \<open>None\<close> when the store has it no more. \<open>*\<close> is the
  largest sequence number, or UID, of the view.
\<close>

fun seq_value :: "nat \<Rightarrow> seq_num \<Rightarrow> nat" where
  "seq_value mx Star = mx"
| "seq_value mx (Num n) = n"

definition in_ranges :: "nat \<Rightarrow> (seq_num \<times> seq_num) list \<Rightarrow> nat \<Rightarrow> bool" where
  "in_ranges mx rs x =
     list_ex (\<lambda>(a, b). min (seq_value mx a) (seq_value mx b) \<le> x
                        \<and> x \<le> max (seq_value mx a) (seq_value mx b)) rs"

definition lookup_uid :: "nat \<Rightarrow> Message list \<Rightarrow> Message option" where
  "lookup_uid u stored = List.find (\<lambda>s. uid s = u) stored"

definition find_results ::
  "SequenceSet \<Rightarrow> SelectedMailbox \<Rightarrow> Mailbox \<Rightarrow> (nat \<times> nat \<times> Message option) list" where
  "find_results seq_set sel m =
     (let uids = map fst (sel_messages sel);
          numbered = zip [1 ..< Suc (length uids)] uids;
          named = (\<lambda>(seq, u). if uid_mode seq_set
                               then in_ranges (sel_next_uid sel - 1) (ranges seq_set) u
                               else in_ranges (length uids) (ranges seq_set) seq)
      in map (\<lambda>(seq, u). (seq, u, lookup_uid u (mbx_messages m))) (filter named numbered))"

definition mbx_find ::
  "string \<Rightarrow> SequenceSet \<Rightarrow> nat \<Rightarrow> world \<Rightarrow> (nat \<times> nat \<times> Message option) list \<times> world" where
  "mbx_find mbx seq_set selected w =
     (find_results seq_set (views w selected) (mailboxes w mbx),
      log_event (Find mbx seq_set selected) w)"

text \<open>Modelled from the spec: \<open>SequenceSet.all(uid=True)\<close>, every UID: \<open>1:*\<close>.\<close>

definition SequenceSet_all :: "bool \<Rightarrow> SequenceSet" where
  "SequenceSet_all uid_flag = SequenceSet [(Num 1, Star)] uid_flag"

text \<open>Modelled from the spec: \<open>SelectedMailbox.set_deleted()\<close>, the tombstone.\<close>

definition sel_set_deleted :: "nat \<Rightarrow> world \<Rightarrow> world" where
  "sel_set_deleted v w = upd_view v (\<lambda>s. s\<lparr>sel_deleted := True\<rparr>) (log_event (Set_deleted v) w)"

text \<open>
  Modelled from the spec: \<open>SelectedMailbox.add_messages((uid, flags))\<close>: the view map
  takes the flags of the UID, a UID it did not have at the end of the sequence.
\<close>

fun upsert :: "nat \<Rightarrow> Flag set \<Rightarrow> (nat \<times> Flag set) list \<Rightarrow> (nat \<times> Flag set) list" where
  "upsert u fl [] = [(u, fl)]"
| "upsert u fl ((u', fl') # rest) =
     (if u = u' then (u, fl) # rest else (u', fl') # upsert u fl rest)"

definition sel_add_messages :: "nat \<Rightarrow> nat \<times> Flag set \<Rightarrow> world \<Rightarrow> world" where
  "sel_add_messages v item w =
     upd_view v (\<lambda>s. s\<lparr>sel_messages := upsert (fst item) (snd item) (sel_messages s)\<rparr>)
       (log_event (Add_messages v (fst item) (snd item)) w)"

text \<open>Modelled from the spec: \<open>session_flags.add_recent(uid)\<close>.\<close>

definition sel_add_recent :: "nat \<Rightarrow> nat \<Rightarrow> world \<Rightarrow> world" where
  "sel_add_recent v u w =
     upd_view v (\<lambda>s. s\<lparr>sel_recent := insert u (sel_recent s)\<rparr>) (log_event (Add_recent v u) w)"

text \<open>
  Modelled from the spec: \<open>session_flags.update(uid, flags, mode)\<close>, the mode applied
  to the session flags of the UID.
\<close>

definition sel_session_update :: "nat \<Rightarrow> nat \<Rightarrow> Flag set \<Rightarrow> FlagOp \<Rightarrow> world \<Rightarrow> world" where
  "sel_session_update v u flag_set mode w =
     upd_view v
       (\<lambda>s. s\<lparr>sel_session_flags :=
                 (sel_session_flags s)(u := apply_op mode (sel_session_flags s u) flag_set)\<rparr>)
       (log_event (Session_update v u flag_set mode) w)"

text \<open>
  Modelled from the spec: \<open>Message.update_flags(flags, mode)\<close>, the mode applied to the
  message's permanent flags, and \<open>Message.get_flags(session_flags)\<close>, "the union of
  permanent and session flags"; \<open>\Recent\<close> is the session flag of the UIDs in the
  recent subset.
\<close>

definition msg_update_flags :: "Message \<Rightarrow> Flag set \<Rightarrow> FlagOp \<Rightarrow> world \<Rightarrow> Message \<times> world" where
  "msg_update_flags msg flag_set mode w =
     (msg\<lparr>permanent_flags := apply_op mode (permanent_flags msg) flag_set\<rparr>,
      log_event (Update_flags (uid msg) flag_set mode) w)"

definition session_get :: "SelectedMailbox \<Rightarrow> nat \<Rightarrow> Flag set" where
  "session_get s u = sel_session_flags s u \<union> (if u \<in> sel_recent s then {Recent} else {})"

definition get_flags :: "Message \<Rightarrow> SelectedMailbox \<Rightarrow> Flag set" where
  "get_flags msg s = permanent_flags msg \<union> session_get s (uid msg)"

text \<open>Modelled from the spec: the response codes \<open>APPENDUID\<close> and \<open>COPYUID\<close>.\<close>

datatype AppendUid = AppendUid (append_uid_validity: nat) (append_uids: "nat list")

datatype CopyUid = CopyUid (copy_uid_validity: nat) (copy_uids: "(nat \<times> nat) list")

subsection \<open>\<open>BaseSession._load_updates\<close> (lines 51-63) and \<open>_find_selected\<close> (lines 65-70)\<close>

text \<open>
  Lines 59-62: the view takes the mailbox's UID validity and next UID, then every item
  of \<open>items()\<close> in turn.
\<close>

definition load_from :: "nat \<Rightarrow> string \<Rightarrow> world \<Rightarrow> world" where
  "load_from selected mbx w =
     (let w1 = upd_view selected
                 (\<lambda>s. s\<lparr>sel_uid_validity := mbx_uid_validity (mailboxes w mbx)\<rparr>) w;
          w2 = upd_view selected
                 (\<lambda>s. s\<lparr>sel_next_uid := mbx_next_uid (mailboxes w1 mbx)\<rparr>) w1
      in (case mbx_items mbx w2 of
            (items, w3) \<Rightarrow>
              fold (\<lambda>(u, msg). sel_add_messages selected (u, permanent_flags msg)) items w3))"

definition load_updates :: "nat option \<Rightarrow> string option \<Rightarrow> world \<Rightarrow> nat option outcome" where
  "load_updates selected mbx w =
     (case selected of
        None \<Rightarrow> (Inr None, w)
      | Some v \<Rightarrow>
          if mbx = None \<or> Some (sel_name (views w v)) \<noteq> mbx then
            (case get_mailbox (sel_name (views w v)) False w of
               (Inl (MailboxNotFound _), w1) \<Rightarrow> (Inr (Some v), sel_set_deleted v w1)
             | (Inl e, w1) \<Rightarrow> (Inl e, w1)
             | (Inr mbx', w1) \<Rightarrow> (Inr (Some v), load_from v mbx' w1))
          else (Inr (Some v), load_from v (sel_name (views w v)) w))"

definition find_selected :: "nat option \<Rightarrow> string \<Rightarrow> world \<Rightarrow> nat option" where
  "find_selected selected mbx w =
     (case selected of
        Some v \<Rightarrow> if sel_name (views w v) = mbx then Some v
                  else any_selected (mailboxes w mbx)
      | None \<Rightarrow> any_selected (mailboxes w mbx))"

subsection \<open>\<open>append_messages\<close> (lines 135-152)\<close>

fun append_loop ::
  "string \<Rightarrow> nat option \<Rightarrow> AppendMessage list \<Rightarrow> nat list \<Rightarrow> world \<Rightarrow> nat list \<times> world" where
  "append_loop mbx dest_selected [] uids w = (uids, w)"
| "append_loop mbx dest_selected (append_msg # rest) uids w =
     (case mbx_parse_message mbx append_msg w of (msg, w1) \<Rightarrow>
      case mbx_add mbx msg (dest_selected = None) w1 of (msg, w2) \<Rightarrow>
      let w3 = (case dest_selected of
                  Some v \<Rightarrow> sel_add_recent v (uid msg) w2
                | None \<Rightarrow> w2)
      in append_loop mbx dest_selected rest (uids @ [uid msg]) w3)"

definition append_messages ::
  "string \<Rightarrow> AppendMessage list \<Rightarrow> nat option \<Rightarrow> world \<Rightarrow> (AppendUid \<times> nat option) outcome" where
  "append_messages name messages selected w =
     bind_w (get_mailbox name True w) (\<lambda>mbx w.
       if mbx_readonly (mailboxes w mbx) then (Inl (MailboxReadOnly name), w)
       else
         (let dest_selected = find_selected selected mbx w
          in case append_loop mbx dest_selected messages [] w of (uids, w) \<Rightarrow>
             let w = updated_set mbx w;
                 append_uid = AppendUid (mbx_uid_validity (mailboxes w mbx)) uids
             in bind_w (load_updates selected (Some mbx) w) (\<lambda>sel w.
                  (Inr (append_uid, sel), w))))"

subsection \<open>\<open>fetch_messages\<close> (lines 182-193)\<close>

definition hits :: "(nat \<times> nat \<times> Message option) list \<Rightarrow> (nat \<times> Message) list" where
  "hits found = concat (map (\<lambda>(seq, u, msg). case msg of Some m \<Rightarrow> [(seq, m)] | None \<Rightarrow> []) found)"

definition fetch_messages ::
  "nat \<Rightarrow> SequenceSet \<Rightarrow> FetchAttribute list \<Rightarrow> world
     \<Rightarrow> ((nat \<times> Message) list \<times> nat option) outcome" where
  "fetch_messages selected sequence_set attributes w =
     bind_w (get_mailbox (sel_name (views w selected)) False w) (\<lambda>mbx w.
       case mbx_find mbx sequence_set selected w of (found, w) \<Rightarrow>
       let ret = hits found
       in if \<not> sel_readonly (views w selected) \<and> list_ex set_seen attributes then
            (let ret = map (\<lambda>(seq, msg).
                         (seq, msg\<lparr>permanent_flags := insert Seen (permanent_flags msg)\<rparr>)) ret;
                 w = mbx_save_flags mbx [ArgGenerator (map snd ret)] w
             in bind_w (load_updates (Some selected) (Some mbx) w) (\<lambda>sel w.
                  (Inr (ret, sel), w)))
          else bind_w (load_updates (Some selected) (Some mbx) w) (\<lambda>sel w.
                  (Inr (ret, sel), w)))"

subsection \<open>\<open>expunge_mailbox\<close> (lines 209-222)\<close>

definition expunge_mailbox :: "nat \<Rightarrow> SequenceSet option \<Rightarrow> world \<Rightarrow> nat option outcome" where
  "expunge_mailbox selected uid_set w =
     (if sel_readonly (views w selected) then
        (Inl (MailboxReadOnly (sel_name (views w selected))), w)
      else
        bind_w (get_mailbox (sel_name (views w selected)) False w) (\<lambda>mbx w.
          let uid_set = (case uid_set of None \<Rightarrow> SequenceSet_all True | Some s \<Rightarrow> s)
          in case mbx_find mbx uid_set selected w of (found, w) \<Rightarrow>
             let expunge_uids =
                   concat (map (\<lambda>(seq, u, msg).
                      case msg of
                        Some m \<Rightarrow> if Deleted \<in> permanent_flags m then [u] else []
                      | None \<Rightarrow> []) found);
                 w = mbx_delete mbx expunge_uids w;
                 w = updated_set mbx w
             in load_updates (Some selected) (Some mbx) w))"

subsection \<open>\<open>copy_messages\<close> (lines 224-242)\<close>

fun copy_loop ::
  "string \<Rightarrow> nat option \<Rightarrow> (nat \<times> nat \<times> Message option) list \<Rightarrow> (nat \<times> nat) list \<Rightarrow> world
     \<Rightarrow> (nat \<times> nat) list \<times> world" where
  "copy_loop dest dest_selected [] uids w = (uids, w)"
| "copy_loop dest dest_selected ((seq, source_uid, None) # rest) uids w =
     copy_loop dest dest_selected rest uids w"
| "copy_loop dest dest_selected ((seq, source_uid, Some msg) # rest) uids w =
     (case mbx_add dest msg (dest_selected = None) w of (msg, w1) \<Rightarrow>
      let w2 = (case dest_selected of
                  Some v \<Rightarrow> sel_add_recent v (uid msg) w1
                | None \<Rightarrow> w1)
      in copy_loop dest dest_selected rest (uids @ [(source_uid, uid msg)]) w2)"

definition copy_messages ::
  "nat \<Rightarrow> SequenceSet \<Rightarrow> string \<Rightarrow> world \<Rightarrow> (CopyUid \<times> nat option) outcome" where
  "copy_messages selected sequence_set mailbox w =
     bind_w (get_mailbox (sel_name (views w selected)) False w) (\<lambda>mbx w.
     bind_w (get_mailbox mailbox True w) (\<lambda>dest w.
       if mbx_readonly (mailboxes w dest) then (Inl (MailboxReadOnly mailbox), w)
       else
         (let dest_selected = find_selected (Some selected) dest w
          in case mbx_find mbx sequence_set selected w of (found, w) \<Rightarrow>
             case copy_loop dest dest_selected found [] w of (uids, w) \<Rightarrow>
             let w = updated_set dest w;
                 copy_uid = CopyUid (mbx_uid_validity (mailboxes w dest)) uids
             in bind_w (load_updates (Some selected) (Some mbx) w) (\<lambda>sel w.
                  (Inr (copy_uid, sel), w)))))"

subsection \<open>\<open>update_flags\<close> (lines 244-265)\<close>

fun store_loop ::
  "nat \<Rightarrow> Flag set \<Rightarrow> Flag set \<Rightarrow> FlagOp \<Rightarrow> (nat \<times> nat \<times> Message option) list
     \<Rightarrow> (nat \<times> nat \<times> Flag set) list \<Rightarrow> world \<Rightarrow> (nat \<times> nat \<times> Flag set) list \<times> world" where
  "store_loop selected permanent flag_set mode [] messages w = (messages, w)"
| "store_loop selected permanent flag_set mode ((msg_seq, u, None) # rest) messages w =
     store_loop selected permanent flag_set mode rest (messages @ [(msg_seq, u, {})]) w"
| "store_loop selected permanent flag_set mode ((msg_seq, u, Some msg) # rest) messages w =
     (case msg_update_flags msg permanent mode w of (msg, w1) \<Rightarrow>
      let w2 = sel_session_update selected (uid msg) flag_set mode w1;
          flags = get_flags msg (views w2 selected)
      in store_loop selected permanent flag_set mode rest (messages @ [(msg_seq, u, flags)]) w2)"

definition update_flags ::
  "nat \<Rightarrow> SequenceSet \<Rightarrow> Flag set \<Rightarrow> FlagOp \<Rightarrow> world
     \<Rightarrow> ((nat \<times> nat \<times> Flag set) list \<times> nat option) outcome" where
  "update_flags selected sequence_set flag_set mode w =
     (if sel_readonly (views w selected) then
        (Inl (MailboxReadOnly (sel_name (views w selected))), w)
      else
        bind_w (get_mailbox (sel_name (views w selected)) False w) (\<lambda>mbx w.
          let permanent = sel_permanent_flags (views w selected) \<inter> flag_set
          in case mbx_find mbx sequence_set selected w of (found, w) \<Rightarrow>
             case store_loop selected permanent flag_set mode found [] w of (messages, w) \<Rightarrow>
             let w = mbx_save_flags mbx (map (\<lambda>(s, u, fl). ArgTriple s u fl) messages) w;
                 w = updated_set mbx w
             in bind_w (load_updates (Some selected) (Some mbx) w) (\<lambda>sel w.
                  (Inr (messages, sel), w))))"

subsection \<open>Notions the properties are stated with\<close>

text \<open>The messages an APPEND of \<open>ams\<close> stores when the next UID is \<open>n\<close> and the recent bit is \<open>r\<close>.\<close>

definition stored_append :: "nat \<Rightarrow> bool \<Rightarrow> AppendMessage list \<Rightarrow> Message list" where
  "stored_append n r ams =
     map (\<lambda>(u, am). \<lparr>uid = u, permanent_flags = am_flags am, recent = r,
                       content = am_content am\<rparr>)
         (zip [n ..< n + length ams] ams)"

text \<open>The messages a COPY of \<open>msgs\<close> stores in the destination: the copies, under the next UIDs of the destination and with the recent bit \<open>r\<close>.\<close>

definition stored_copy :: "nat \<Rightarrow> bool \<Rightarrow> Message list \<Rightarrow> Message list" where
  "stored_copy n r msgs =
     map (\<lambda>(u, msg). msg\<lparr>uid := u, recent := r\<rparr>) (zip [n ..< n + length msgs] msgs)"

text \<open>The calls made for one added message: \<open>parse_message\<close> (APPEND only), \<open>add\<close>, and \<open>add_recent\<close> when a view takes the recent bit.\<close>

definition add_events :: "string \<Rightarrow> nat option \<Rightarrow> bool \<Rightarrow> nat \<Rightarrow> event list" where
  "add_events mbx dest parsed u =
     (if parsed then [Parse_message mbx] else [])
     @ [Add mbx u (dest = None)]
     @ (case dest of Some v \<Rightarrow> [Add_recent v u] | None \<Rightarrow> [])"

text \<open>The views after the view \<open>dest\<close>, if any, took ownership of the recent bit of \<open>uids\<close>.\<close>

definition claim_recent ::
  "nat option \<Rightarrow> nat list \<Rightarrow> (nat \<Rightarrow> SelectedMailbox) \<Rightarrow> nat \<Rightarrow> SelectedMailbox" where
  "claim_recent dest uids vs v' =
     (case dest of
        None \<Rightarrow> vs v'
      | Some v \<Rightarrow> if v' = v then (vs v)\<lparr>sel_recent := sel_recent (vs v) \<union> set uids\<rparr>
                  else vs v')"

text \<open>The hits of a \<open>find\<close> as COPY uses them: source UID and message.\<close>

definition copied :: "(nat \<times> nat \<times> Message option) list \<Rightarrow> (nat \<times> Message) list" where
  "copied found =
     concat (map (\<lambda>(seq, u, msg). case msg of Some m \<Rightarrow> [(u, m)] | None \<Rightarrow> []) found)"

text \<open>The UIDs of the messages a \<open>find\<close> hit.\<close>

definition hit_uids :: "(nat \<times> nat \<times> Message option) list \<Rightarrow> nat set" where
  "hit_uids found = uid ` snd ` set (hits found)"

text \<open>The calls STORE makes for one result of \<open>find\<close>: none for a miss, \<open>Message.update_flags\<close> with the permitted flags and \<open>session_flags.update\<close> with the requested flags for a hit.\<close>

definition store_events ::
  "nat \<Rightarrow> Flag set \<Rightarrow> Flag set \<Rightarrow> FlagOp \<Rightarrow> nat \<times> nat \<times> Message option \<Rightarrow> event list" where
  "store_events v permitted flag_set mode item =
     (case item of
        (seq, u, None) \<Rightarrow> []
      | (seq, u, Some msg) \<Rightarrow>
          [Update_flags (uid msg) permitted mode, Session_update v (uid msg) flag_set mode])"

text \<open>The triple STORE returns for one result of \<open>find\<close>, from the view as it was before the command.\<close>

definition store_result ::
  "SelectedMailbox \<Rightarrow> Flag set \<Rightarrow> Flag set \<Rightarrow> FlagOp \<Rightarrow> nat \<times> nat \<times> Message option
     \<Rightarrow> nat \<times> nat \<times> Flag set" where
  "store_result s permitted flag_set mode item =
     (case item of
        (seq, u, None) \<Rightarrow> (seq, u, {})
      | (seq, u, Some msg) \<Rightarrow>
          (seq, u, apply_op mode (permanent_flags msg) permitted
                   \<union> apply_op mode (sel_session_flags s (uid msg)) flag_set
                   \<union> (if uid msg \<in> sel_recent s then {Recent} else {})))"

text \<open>The calls that set a mailbox's update event.\<close>

fun is_updated_event :: "event \<Rightarrow> bool" where
  "is_updated_event (Updated_set _) = True"
| "is_updated_event _ = False"

text \<open>The calls the refresh step \<open>_load_updates\<close> makes.\<close>

fun refresh_event :: "event \<Rightarrow> bool" where
  "refresh_event (Get_mailbox _ try_create) = (\<not> try_create)"
| "refresh_event (Items _) = True"
| "refresh_event (Add_messages _ _ _) = True"
| "refresh_event (Set_deleted _) = True"
| "refresh_event _ = False"

text \<open>The UIDs EXPUNGE deletes: the hits that carry \<open>\Deleted\<close>.\<close>

definition expunge_uids :: "(nat \<times> nat \<times> Message option) list \<Rightarrow> nat list" where
  "expunge_uids found =
     concat (map (\<lambda>(seq, u, msg).
        case msg of
          Some m \<Rightarrow> if Deleted \<in> permanent_flags m then [u] else []
        | None \<Rightarrow> []) found)"

subsection \<open>An example state\<close>

text \<open>
  A state to run the session on: \<open>INBOX\<close> holds the messages 1 and 3 (message 2 was
  expunged by another session) and is selected by the views 0 (read-write) and 1
  (read-only); \<open>Archive\<close> is empty and selected by no view; \<open>Frozen\<close> is read-only;
  view 2 is on a mailbox \<open>Gone\<close> that exists no more. No mailbox can be created.
\<close>

definition message_1 :: Message where
  "message_1 = \<lparr>uid = 1, permanent_flags = {Seen}, recent = False, content = ''one''\<rparr>"

definition message_3 :: Message where
  "message_3 = \<lparr>uid = 3, permanent_flags = {Deleted}, recent = False, content = ''three''\<rparr>"

definition no_mailbox :: Mailbox where
  "no_mailbox = \<lparr>mbx_exists = False, mbx_readonly = False, mbx_uid_validity = 0,
                  mbx_next_uid = 1, mbx_messages = [], mbx_selected = [], mbx_updated = 0\<rparr>"

definition inbox :: Mailbox where
  "inbox = \<lparr>mbx_exists = True, mbx_readonly = False, mbx_uid_validity = 7,
             mbx_next_uid = 4, mbx_messages = [message_1, message_3], mbx_selected = [0, 1],
             mbx_updated = 0\<rparr>"

definition archive :: Mailbox where
  "archive = \<lparr>mbx_exists = True, mbx_readonly = False, mbx_uid_validity = 9,
               mbx_next_uid = 1, mbx_messages = [], mbx_selected = [], mbx_updated = 0\<rparr>"

definition frozen :: Mailbox where
  "frozen = \<lparr>mbx_exists = True, mbx_readonly = True, mbx_uid_validity = 5,
              mbx_next_uid = 1, mbx_messages = [], mbx_selected = [], mbx_updated = 0\<rparr>"

definition view_0 :: SelectedMailbox where
  "view_0 = \<lparr>sel_name = ''INBOX'', sel_readonly = False, sel_uid_validity = 7,
              sel_next_uid = 4, sel_permanent_flags = {Seen, Deleted},
              sel_session_flags = (\<lambda>_. {}), sel_recent = {},
              sel_messages = [(1, {Seen}), (2, {}), (3, {Deleted})], sel_deleted = False\<rparr>"

definition view_1 :: SelectedMailbox where
  "view_1 = view_0\<lparr>sel_readonly := True\<rparr>"

definition view_2 :: SelectedMailbox where
  "view_2 = \<lparr>sel_name = ''Gone'', sel_readonly = False, sel_uid_validity = 3,
              sel_next_uid = 2, sel_permanent_flags = {Seen},
              sel_session_flags = (\<lambda>_. {}), sel_recent = {},
              sel_messages = [(1, {})], sel_deleted = False\<rparr>"

definition example_world :: world where
  "example_world =
     \<lparr>mailboxes = (\<lambda>_. no_mailbox)(''INBOX'' := inbox, ''Archive'' := archive,
                                    ''Frozen'' := frozen),
      creatable = (\<lambda>_. None),
      views = (\<lambda>_. view_2)(0 := view_0, 1 := view_1),
      trace = []\<rparr>"

definition example_append :: AppendMessage where
  "example_append = \<lparr>am_content = ''new'', am_flags = {Keyword ''x''}\<rparr>"

section \<open>Verified properties\<close>

subsection \<open>Fetch requirements\<close>

lemma FetchRequirement_UNIV: "(UNIV :: FetchRequirement set) = {NONE, METADATA, HEADERS, BODY}"
proof -
  have "x \<in> {NONE, METADATA, HEADERS, BODY}" for x :: FetchRequirement
    by (cases x) simp_all
  then show ?thesis by blast
qed

lemma finite_FetchRequirement: "finite (S :: FetchRequirement set)"
proof -
  have "finite (UNIV :: FetchRequirement set)"
    by (simp add: FetchRequirement_UNIV)
  then show ?thesis by (rule finite_subset[OF subset_UNIV])
qed

lemma reduce_upper: "x \<in> S \<Longrightarrow> req_rank x \<le> req_rank (reduce S)"
  by (cases x) (simp_all add: reduce_def)

lemma reduce_member: "reduce S \<in> S \<or> reduce S = NONE"
  by (simp add: reduce_def)

lemma reduce_is_max: "req_rank (reduce S) = Max (insert 0 (req_rank ` S))"
proof -
  have fin: "finite (insert 0 (req_rank ` S))"
    by (simp add: finite_FetchRequirement)
  have mem: "req_rank (reduce S) \<in> insert 0 (req_rank ` S)"
    using reduce_member[of S] by auto
  have ub: "y \<le> req_rank (reduce S)" if "y \<in> insert 0 (req_rank ` S)" for y
    using that reduce_upper[of _ S] by auto
  show ?thesis
    using Max_eqI[OF fin ub mem] by simp
qed

lemma collect_map_Inr: "collect (map Inr rs) = Inr rs"
  by (induction rs) simp_all

lemma reduce_pair: "reduce {a, b} = (if req_rank a \<le> req_rank b then b else a)"
  by (cases a; cases b) (simp_all add: reduce_def)

text \<open>
  Claim C1, as the code has it. The requirement of a key follows the table: \<open>ALL\<close>
  needs nothing; a \<open>KEYSET\<close> whose members' requirements are \<open>rs\<close> needs their
  reduction, whose rank is the maximum of the members' ranks (and of \<open>NONE\<close>, for the
  empty set); an \<open>OR\<close> needs the larger of its two operands' requirements;
  \<open>SENTBEFORE\<close>, \<open>SENTON\<close>, \<open>SENTSINCE\<close>, \<open>HEADER\<close>, \<open>BCC\<close>, \<open>CC\<close>, \<open>FROM\<close>, \<open>TO\<close>
  and \<open>SUBJECT\<close> need \<open>HEADERS\<close>; \<open>BODY\<close> and \<open>TEXT\<close> need \<open>BODY\<close>; every other
  key needs \<open>METADATA\<close>, and \<open>SEQSET\<close> is one of these: the code has no row for it.
\<close>

theorem requirement_table:
  "(key k = ''ALL'' \<longrightarrow> requirement k = Inr NONE) \<and>
   (key k = ''KEYSET'' \<and> filter_of k = FKeySet ks \<and> map requirement ks = map Inr rs \<longrightarrow>
      requirement k = Inr (reduce (set rs)) \<and>
      req_rank (reduce (set rs)) = Max (insert 0 (req_rank ` set rs))) \<and>
   (key k = ''OR'' \<and> filter_of k = FKeyOr l r \<and> requirement l = Inr a \<and> requirement r = Inr b \<longrightarrow>
      requirement k = Inr (if req_rank a \<le> req_rank b then b else a)) \<and>
   (key k \<in> {''SENTBEFORE'', ''SENTON'', ''SENTSINCE'', ''HEADER'', ''BCC'', ''CC'', ''FROM'',
              ''TO'', ''SUBJECT''} \<longrightarrow> requirement k = Inr HEADERS) \<and>
   (key k \<in> {''BODY'', ''TEXT''} \<longrightarrow> requirement k = Inr BODY) \<and>
   (key k \<notin> {''ALL'', ''KEYSET'', ''OR'', ''SENTBEFORE'', ''SENTON'', ''SENTSINCE'', ''HEADER'',
              ''BCC'', ''CC'', ''FROM'', ''TO'', ''SUBJECT'', ''BODY'', ''TEXT''} \<longrightarrow>
      requirement k = Inr METADATA) \<and>
   (key k = ''SEQSET'' \<longrightarrow> requirement k = Inr METADATA)"
proof (cases k)
  case (SearchKey kn f i)
  have ks: "kn = ''KEYSET'' \<Longrightarrow> f = FKeySet ks \<Longrightarrow> map requirement ks = map Inr rs \<Longrightarrow>
      requirement k = Inr (reduce (set rs))"
    using SearchKey by (simp add: collect_map_Inr)
  have or: "kn = ''OR'' \<Longrightarrow> f = FKeyOr l r \<Longrightarrow> requirement l = Inr a \<Longrightarrow>
      requirement r = Inr b \<Longrightarrow>
      requirement k = Inr (if req_rank a \<le> req_rank b then b else a)"
    using SearchKey reduce_pair[of a b] by simp
  have rest: "kn \<noteq> ''KEYSET'' \<Longrightarrow> kn \<noteq> ''OR'' \<Longrightarrow> requirement k =
     (if kn = ''ALL'' then Inr NONE
      else if kn \<in> set [''SENTBEFORE'', ''SENTON'', ''SENTSINCE'', ''BCC'',
                               ''CC'', ''FROM'', ''SUBJECT'', ''TO'', ''HEADER''] then
        Inr HEADERS
      else if kn \<in> set [''BODY'', ''TEXT''] then Inr BODY
      else Inr METADATA)"
    using SearchKey by simp
  show ?thesis
    using SearchKey ks or rest reduce_is_max[of "set rs"] by auto
qed

theorem requirement_table_witness:
  "requirement (SearchKey ''KEYSET''
      (FKeySet [SearchKey ''SUBJECT'' (FStr ''hi'') False, SearchKey ''ALL'' FNone False,
                SearchKey ''LARGER'' (FInt 1024) True]) False) = Inr HEADERS \<and>
   req_rank HEADERS = Max (insert 0 (req_rank ` {HEADERS, NONE, METADATA})) \<and>
   requirement (SearchKey ''OR''
      (FKeyOr (SearchKey ''TEXT'' (FStr ''hi'') False) (SearchKey ''FROM'' (FStr ''joe'') False))
      False) = Inr BODY \<and>
   requirement (SearchKey ''ALL'' FNone True) = Inr NONE \<and>
   requirement (SearchKey ''HEADER'' (FHeader ''X-Tag'' ''a'') False) = Inr HEADERS \<and>
   requirement (SearchKey ''BODY'' (FStr ''hi'') False) = Inr BODY \<and>
   requirement (SearchKey ''UNSEEN'' FNone False) = Inr METADATA \<and>
   requirement (SearchKey ''SEQSET'' (FSequenceSet (SequenceSet [(Num 1, Star)] False)) False)
     = Inr METADATA"
proof -
  show ?thesis
    using
      requirement_table[of "SearchKey ''KEYSET''
          (FKeySet [SearchKey ''SUBJECT'' (FStr ''hi'') False, SearchKey ''ALL'' FNone False,
                    SearchKey ''LARGER'' (FInt 1024) True]) False"
        "[SearchKey ''SUBJECT'' (FStr ''hi'') False, SearchKey ''ALL'' FNone False,
          SearchKey ''LARGER'' (FInt 1024) True]"
        "[HEADERS, NONE, METADATA]"]
      requirement_table[of "SearchKey ''OR''
          (FKeyOr (SearchKey ''TEXT'' (FStr ''hi'') False) (SearchKey ''FROM'' (FStr ''joe'') False))
          False" _ _
        "SearchKey ''TEXT'' (FStr ''hi'') False" "SearchKey ''FROM'' (FStr ''joe'') False"
        BODY HEADERS]
      requirement_table[of "SearchKey ''ALL'' FNone True"]
      requirement_table[of "SearchKey ''HEADER'' (FHeader ''X-Tag'' ''a'') False"]
      requirement_table[of "SearchKey ''BODY'' (FStr ''hi'') False"]
      requirement_table[of "SearchKey ''UNSEEN'' FNone False"]
      requirement_table[of
        "SearchKey ''SEQSET'' (FSequenceSet (SequenceSet [(Num 1, Star)] False)) False"]
    by (simp add: reduce_def)
qed

text \<open>
  The claim's row for \<open>SEQSET\<close> fails: the buffer \<open>1:*\<close> parses to a key tagged
  \<open>SEQSET\<close>, and its requirement is \<open>METADATA\<close>, not \<open>NONE\<close>.
\<close>

theorem requirement_SEQSET_counterexample:
  "parse ref_parsers (Suc 0) ''1:*''
     = Inr (SearchKey ''SEQSET'' (FSequenceSet (SequenceSet [(Num 1, Star)] False)) False, [])
   \<and> requirement (SearchKey ''SEQSET'' (FSequenceSet (SequenceSet [(Num 1, Star)] False)) False)
     \<noteq> Inr NONE"
  by code_simp

subsection \<open>The \<open>NOT\<close> prefix\<close>

lemma rwi_Inl: "result_with_inverse j (Inl e) = Inl e"
  by (simp add: result_with_inverse_def)

lemma rwi_Inr: "result_with_inverse j (Inr (SearchKey kn f i, rest)) = Inr (SearchKey kn f j, rest)"
  by (simp add: result_with_inverse_def with_inverse_def)

lemma rwi_and_then:
  "result_with_inverse j (and_then r f) = and_then r (\<lambda>v. result_with_inverse j (f v))"
  by (cases r) (simp_all add: and_then_def result_with_inverse_def)

lemma parse_key_inverse:
  "result_with_inverse j (parse_key P self i buf) = parse_key P self j buf"
  unfolding parse_key_def Let_def
  by (simp only: rwi_Inl rwi_Inr rwi_and_then if_distrib[of "result_with_inverse j"]
        prod.case_distrib[of "result_with_inverse j"]
        sum.case_distrib[of "result_with_inverse j"]
      cong: if_cong sum.case_cong prod.case_cong)

lemma parse_key_inverse_bit:
  assumes "parse_key P self i buf = Inr (k, rest)"
  shows "inverse k = i"
proof -
  have "result_with_inverse i (Inr (k, rest)) = Inr (k, rest)"
    using parse_key_inverse[of i P self i buf] assms by simp
  then have "with_inverse i k = k"
    by (simp add: result_with_inverse_def)
  then show ?thesis
    by (cases k) (simp add: with_inverse_def)
qed

lemma upper_NOT: "upper ''NOT'' = ''NOT''"
  by code_simp

lemma strip_not_NOT_prefix: "strip_not (''NOT '' @ b) = (True, dropWhile is_space b)"
proof -
  have "not_pattern_match (''NOT '' @ b) = Some (Suc (Suc (Suc (Suc (length (takeWhile is_space b))))))"
    using upper_NOT by (simp add: not_pattern_match_def is_space_def)
  then show ?thesis
    by (simp add: strip_not_def dropWhile_eq_drop)
qed

lemma strip_not_False: "strip_not b = (False, b') \<Longrightarrow> b' = b"
  by (auto simp: strip_not_def split: option.splits)

lemma strip_not_fst: "strip_not b = (i, b') \<Longrightarrow> i = (not_pattern_match b \<noteq> None)"
  by (auto simp: strip_not_def split: option.splits)

text \<open>
  Claim C6, as the code has it. Let \<open>Space.parse\<close> consume exactly the leading run of
  spaces (and raise \<open>NotParseable\<close> when there is none). If a buffer \<open>b\<close> parses to a
  key \<open>k\<close> whose inverse bit is not set, that is, \<open>b\<close> does not itself start with
  \<open>NOT\<close>, then \<open>NOT b\<close> parses, at the same depth and with the same remaining buffer,
  to \<open>k.not_inverse\<close>: the same key and filter with the inverse bit set. Taking
  \<open>not_inverse\<close> twice gives the key back.
\<close>

theorem parse_NOT_prefix:
  assumes sp: "\<And>buf. skip_space P buf = Inr (dropWhile is_space buf)"
    and ok: "parse P depth b = Inr (k, rest)"
    and plain: "\<not> inverse k"
  shows "parse P depth (''NOT '' @ b) = Inr (not_inverse k, rest) \<and>
         not_inverse (not_inverse k) = k"
proof -
  obtain d where d: "depth = Suc d"
    using ok by (cases depth) simp_all
  obtain i b2 where st: "strip_not (dropWhile is_space b) = (i, b2)"
    by (cases "strip_not (dropWhile is_space b)")
  have pk: "parse_key P (parse P d) i b2 = Inr (k, rest)"
    using ok d st by (simp add: sp and_then_def)
  have i: "i = False"
    using parse_key_inverse_bit[OF pk] plain by simp
  have b2: "b2 = dropWhile is_space b"
    using st i strip_not_False by blast
  have "parse P depth (''NOT '' @ b) = parse_key P (parse P d) True (dropWhile is_space b)"
    using d by (simp add: sp and_then_def is_space_def strip_not_NOT_prefix[simplified])
  also have "\<dots> = result_with_inverse True (parse_key P (parse P d) i b2)"
    using b2 by (simp add: parse_key_inverse)
  also have "\<dots> = Inr (not_inverse k, rest)"
    using pk plain by (simp add: result_with_inverse_def with_inverse_def not_inverse_def)
  finally have one: "parse P depth (''NOT '' @ b) = Inr (not_inverse k, rest)" .
  have two: "not_inverse (not_inverse k) = k"
    by (cases k) (simp add: not_inverse_def)
  show ?thesis using one two by simp
qed

lemma skip_space_ref: "skip_space ref_parsers buf = Inr (dropWhile is_space buf)"
proof (cases "takeWhile is_space buf = []")
  case True
  then have "dropWhile is_space buf = buf"
    by (metis takeWhile_dropWhile_id append_Nil)
  with True show ?thesis
    by (simp add: skip_space_def ref_parsers_def Space_parse_ref_def is_NotParseable_def)
next
  case False
  then show ?thesis
    by (simp add: skip_space_def ref_parsers_def Space_parse_ref_def Let_def dropWhile_eq_drop)
qed

theorem parse_NOT_prefix_witness:
  "parse ref_parsers (Suc (Suc 0)) ''OR SEEN FROM joe'' =
     Inr (SearchKey ''OR'' (FKeyOr (SearchKey ''SEEN'' FNone False)
                                   (SearchKey ''FROM'' (FStr ''joe'') False)) False, []) \<and>
   parse ref_parsers (Suc (Suc 0)) (''NOT '' @ ''OR SEEN FROM joe'') =
     Inr (SearchKey ''OR'' (FKeyOr (SearchKey ''SEEN'' FNone False)
                                   (SearchKey ''FROM'' (FStr ''joe'') False)) True, [])"
proof -
  have ok: "parse ref_parsers (Suc (Suc 0)) ''OR SEEN FROM joe'' =
     Inr (SearchKey ''OR'' (FKeyOr (SearchKey ''SEEN'' FNone False)
                                   (SearchKey ''FROM'' (FStr ''joe'') False)) False, [])"
    by code_simp
  have plain: "\<not> inverse (SearchKey ''OR'' (FKeyOr (SearchKey ''SEEN'' FNone False)
                                   (SearchKey ''FROM'' (FStr ''joe'') False)) False)"
    by simp
  show ?thesis
    using parse_NOT_prefix[of ref_parsers, OF skip_space_ref ok plain] ok
    by (simp add: not_inverse_def)
qed

text \<open>
  The claim fails for a buffer that already starts with \<open>NOT\<close>: the pattern is matched
  once, so the second \<open>NOT\<close> reaches \<open>Atom.parse\<close>, is no search key, and the parse is
  a \<open>NotParseable\<close>. \<open>NOT ALL\<close> parses; \<open>NOT NOT ALL\<close> does not.
\<close>

theorem parse_double_NOT_counterexample:
  "parse ref_parsers (Suc (Suc 0)) ''NOT ALL'' = Inr (SearchKey ''ALL'' FNone True, []) \<and>
   parse ref_parsers (Suc (Suc 0)) (''NOT '' @ ''NOT ALL'') = Inl NotParseable"
  by code_simp

subsection \<open>\<open>KEYWORD\<close> and \<open>UNKEYWORD\<close>\<close>

text \<open>
  Claim C9. Let the buffer, after the optional space and \<open>NOT\<close>, be no sequence set
  and no list, and let its atom be \<open>KEYWORD\<close> or \<open>UNKEYWORD\<close> in any letter case,
  followed by a space and a flag. Then the parse is a \<open>NotParseable\<close> when the flag is a
  system flag, and otherwise the key named by the atom with that flag as its filter,
  and the buffer left by \<open>Flag.parse\<close>.
\<close>

theorem parse_KEYWORD:
  assumes "skip_space P buf = Inr b1"
    and "strip_not b1 = (i, b2)"
    and "SequenceSet_parse P False b2 = Inl e" and "is_NotParseable e"
    and "ListP_parse P (parse P depth) b2 = Inl NotParseable"
    and "Atom_parse P b2 = Inr (atom, after)"
    and "upper atom = ''KEYWORD'' \<or> upper atom = ''UNKEYWORD''"
    and "Space_parse P after = Inr (n, b3)"
    and "Flag_parse P b3 = Inr (flag, after_buf)"
  shows "parse P (Suc depth) buf =
           (if is_system flag then Inl NotParseable
            else Inr (SearchKey (upper atom) (FFlag flag) i, after_buf))"
proof -
  have "parse P (Suc depth) buf = parse_key P (parse P depth) i b2"
    using assms(1,2) by (simp add: and_then_def)
  also have "\<dots> = (if is_system flag then Inl NotParseable
            else Inr (SearchKey (upper atom) (FFlag flag) i, after_buf))"
    using assms(3-9) by (auto simp: parse_key_def and_then_def is_NotParseable_def)
  finally show ?thesis .
qed

theorem parse_KEYWORD_witness:
  "parse ref_parsers (Suc 0) (''KEYWORD '' @ [CHR 0x5C] @ ''Seen'') = Inl NotParseable \<and>
   parse ref_parsers (Suc 0) ''NOT unkeyword $Forwarded x'' =
     Inr (SearchKey ''UNKEYWORD'' (FFlag (Keyword ''$Forwarded'')) True, '' x'')"
proof -
  let ?P = ref_parsers
  let ?b = "''KEYWORD '' @ [CHR 0x5C] @ ''Seen''"
  have a1: "skip_space ?P ?b = Inr ?b" by code_simp
  have a2: "strip_not ?b = (False, ?b)" by code_simp
  have a3: "SequenceSet_parse ?P False ?b = Inl NotParseable" by code_simp
  have a4: "is_NotParseable NotParseable" by (simp add: is_NotParseable_def)
  have a5: "ListP_parse ?P (parse ?P 0) ?b = Inl NotParseable" by code_simp
  have a6: "Atom_parse ?P ?b = Inr (''KEYWORD'', '' '' @ [CHR 0x5C] @ ''Seen'')" by code_simp
  have a7: "upper ''KEYWORD'' = ''KEYWORD'' \<or> upper ''KEYWORD'' = ''UNKEYWORD''" by code_simp
  have a8: "Space_parse ?P ('' '' @ [CHR 0x5C] @ ''Seen'') = Inr (1, [CHR 0x5C] @ ''Seen'')"
    by code_simp
  have a9: "Flag_parse ?P ([CHR 0x5C] @ ''Seen'') = Inr (System ''Seen'', [])" by code_simp
  let ?c = "''NOT unkeyword $Forwarded x''"
  let ?c2 = "''unkeyword $Forwarded x''"
  have b1: "skip_space ?P ?c = Inr ?c" by code_simp
  have b2: "strip_not ?c = (True, ?c2)" by code_simp
  have b3: "SequenceSet_parse ?P False ?c2 = Inl NotParseable" by code_simp
  have b5: "ListP_parse ?P (parse ?P 0) ?c2 = Inl NotParseable" by code_simp
  have b6: "Atom_parse ?P ?c2 = Inr (''unkeyword'', '' $Forwarded x'')" by code_simp
  have b7: "upper ''unkeyword'' = ''KEYWORD'' \<or> upper ''unkeyword'' = ''UNKEYWORD''" by code_simp
  have b8: "Space_parse ?P '' $Forwarded x'' = Inr (1, ''$Forwarded x'')" by code_simp
  have b9: "Flag_parse ?P ''$Forwarded x'' = Inr (Keyword ''$Forwarded'', '' x'')" by code_simp
  have u: "upper ''unkeyword'' = ''UNKEYWORD''" by code_simp
  show ?thesis
    using parse_KEYWORD[OF a1 a2 a3 a4 a5 a6 a7 a8 a9]
          parse_KEYWORD[OF b1 b2 b3 a4 b5 b6 b7 b8 b9] u
    by simp
qed

section \<open>The session engine: verified properties\<close>

subsection \<open>The effect of the collaborators on the state\<close>

lemma log_event_simps [simp]:
  "trace (log_event ev w) = trace w @ [ev]"
  "mailboxes (log_event ev w) = mailboxes w"
  "views (log_event ev w) = views w"
  "creatable (log_event ev w) = creatable w"
  by (simp_all add: log_event_def)

lemma upd_mailbox_simps [simp]:
  "trace (upd_mailbox n f w) = trace w"
  "mailboxes (upd_mailbox n f w) n' = (if n' = n then f (mailboxes w n) else mailboxes w n')"
  "views (upd_mailbox n f w) = views w"
  "creatable (upd_mailbox n f w) = creatable w"
  by (simp_all add: upd_mailbox_def)

lemma upd_view_simps [simp]:
  "trace (upd_view v f w) = trace w"
  "mailboxes (upd_view v f w) = mailboxes w"
  "views (upd_view v f w) v' = (if v' = v then f (views w v) else views w v')"
  "creatable (upd_view v f w) = creatable w"
  by (simp_all add: upd_view_def)

lemma get_mailbox_exists:
  "mbx_exists (mailboxes w name) \<Longrightarrow>
     get_mailbox name tc w = (Inr name, log_event (Get_mailbox name tc) w)"
  by (simp add: get_mailbox_def Let_def)

lemma get_mailbox_missing:
  "\<not> mbx_exists (mailboxes w name) \<Longrightarrow>
     get_mailbox name False w = (Inl (MailboxNotFound name), log_event (Get_mailbox name False) w)"
  by (simp add: get_mailbox_def Let_def)

lemma get_mailbox_Inr:
  assumes "get_mailbox name tc w = (Inr mbx, w1)"
  shows "mbx = name" and "trace w1 = trace w @ [Get_mailbox name tc]" and "views w1 = views w"
    and "mbx_exists (mailboxes w1 name)"
    and "mbx_exists (mailboxes w name) \<Longrightarrow> w1 = log_event (Get_mailbox name tc) w"
  using assms
  by (auto simp: get_mailbox_def Let_def split: if_splits option.splits)

lemma sel_add_messages_simps [simp]:
  "trace (sel_add_messages v item w) = trace w @ [Add_messages v (fst item) (snd item)]"
  "mailboxes (sel_add_messages v item w) = mailboxes w"
  "views (sel_add_messages v item w) v' =
     (if v' = v
      then (views w v)\<lparr>sel_messages := upsert (fst item) (snd item) (sel_messages (views w v))\<rparr>
      else views w v')"
  by (simp_all add: sel_add_messages_def)

lemma fold_add_messages_trace:
  "trace (fold (\<lambda>m. sel_add_messages v (uid m, permanent_flags m)) msgs w) =
     trace w @ map (\<lambda>m. Add_messages v (uid m) (permanent_flags m)) msgs"
  by (induction msgs arbitrary: w) simp_all

lemma fold_add_messages_mailboxes:
  "mailboxes (fold (\<lambda>m. sel_add_messages v (uid m, permanent_flags m)) msgs w) = mailboxes w"
  by (induction msgs arbitrary: w) simp_all

lemma fold_add_messages_views:
  "views (fold (\<lambda>m. sel_add_messages v (uid m, permanent_flags m)) msgs w) v' =
     (if v' = v
      then (views w v)\<lparr>sel_messages :=
             fold (\<lambda>m. upsert (uid m) (permanent_flags m)) msgs (sel_messages (views w v))\<rparr>
      else views w v')"
  by (induction msgs arbitrary: w) simp_all

lemma load_from_eq:
  "load_from v mbx w =
     fold (\<lambda>m. sel_add_messages v (uid m, permanent_flags m)) (mbx_messages (mailboxes w mbx))
       (log_event (Items mbx)
         (upd_view v (\<lambda>s. s\<lparr>sel_next_uid := mbx_next_uid (mailboxes w mbx)\<rparr>)
           (upd_view v (\<lambda>s. s\<lparr>sel_uid_validity := mbx_uid_validity (mailboxes w mbx)\<rparr>) w)))"
  by (simp add: load_from_def Let_def mbx_items_def fold_map comp_def)

lemma load_from_trace:
  "trace (load_from v mbx w) =
     trace w @ Items mbx # map (\<lambda>m. Add_messages v (uid m) (permanent_flags m))
                              (mbx_messages (mailboxes w mbx))"
  by (simp add: load_from_eq fold_add_messages_trace)

lemma load_from_mailboxes: "mailboxes (load_from v mbx w) = mailboxes w"
  by (simp add: load_from_eq fold_add_messages_mailboxes)

lemma load_from_views:
  "views (load_from v mbx w) v' =
     (if v' = v
      then (views w v)\<lparr>
             sel_uid_validity := mbx_uid_validity (mailboxes w mbx),
             sel_next_uid := mbx_next_uid (mailboxes w mbx),
             sel_messages := fold (\<lambda>m. upsert (uid m) (permanent_flags m))
                               (mbx_messages (mailboxes w mbx)) (sel_messages (views w v))\<rparr>
      else views w v')"
  by (simp add: load_from_eq fold_add_messages_views)

text \<open>
  Claim C3. The refresh step: with no view, nothing happens and no view is returned.
  With a view whose mailbox the command did not identify (no mailbox, or one of
  another name), the mailbox is resolved by the view's name; if it does not exist,
  the view becomes a tombstone and is returned otherwise unchanged, the only calls
  being the lookup and \<open>set_deleted\<close>, and nothing is raised. In every other case the
  view is returned with the mailbox's UID validity and next UID, and \<open>add_messages\<close>
  was called once for every item of \<open>items()\<close>, in order, with its UID and permanent
  flags; the mailboxes are as before.
\<close>

theorem load_updates_cases:
  "load_updates None mbx w = (Inr None, w) \<and>
   ((mbx = None \<or> mbx \<noteq> Some (sel_name (views w v))) \<and>
    \<not> mbx_exists (mailboxes w (sel_name (views w v))) \<longrightarrow>
      load_updates (Some v) mbx w =
        (Inr (Some v),
         w\<lparr>views := (views w)(v := (views w v)\<lparr>sel_deleted := True\<rparr>),
           trace := trace w @ [Get_mailbox (sel_name (views w v)) False, Set_deleted v]\<rparr>)) \<and>
   (mbx = Some (sel_name (views w v)) \<or> mbx_exists (mailboxes w (sel_name (views w v))) \<longrightarrow>
      fst (load_updates (Some v) mbx w) = Inr (Some v) \<and>
      mailboxes (snd (load_updates (Some v) mbx w)) = mailboxes w \<and>
      views (snd (load_updates (Some v) mbx w)) =
        (views w)(v := (views w v)\<lparr>
           sel_uid_validity := mbx_uid_validity (mailboxes w (sel_name (views w v))),
           sel_next_uid := mbx_next_uid (mailboxes w (sel_name (views w v))),
           sel_messages := fold (\<lambda>m. upsert (uid m) (permanent_flags m))
                             (mbx_messages (mailboxes w (sel_name (views w v))))
                             (sel_messages (views w v))\<rparr>) \<and>
      trace (snd (load_updates (Some v) mbx w)) =
        trace w
        @ (if mbx = Some (sel_name (views w v)) then []
           else [Get_mailbox (sel_name (views w v)) False])
        @ Items (sel_name (views w v))
        # map (\<lambda>m. Add_messages v (uid m) (permanent_flags m))
            (mbx_messages (mailboxes w (sel_name (views w v)))))"
proof (intro conjI impI)
  show "load_updates None mbx w = (Inr None, w)"
    by (simp add: load_updates_def)
next
  assume a: "(mbx = None \<or> mbx \<noteq> Some (sel_name (views w v))) \<and>
    \<not> mbx_exists (mailboxes w (sel_name (views w v)))"
  then have "load_updates (Some v) mbx w =
      (Inr (Some v), sel_set_deleted v (log_event (Get_mailbox (sel_name (views w v)) False) w))"
    by (auto simp: load_updates_def get_mailbox_missing)
  then show "load_updates (Some v) mbx w =
        (Inr (Some v),
         w\<lparr>views := (views w)(v := (views w v)\<lparr>sel_deleted := True\<rparr>),
           trace := trace w @ [Get_mailbox (sel_name (views w v)) False, Set_deleted v]\<rparr>)"
    by (simp add: sel_set_deleted_def upd_view_def log_event_def)
next
  assume a: "mbx = Some (sel_name (views w v)) \<or> mbx_exists (mailboxes w (sel_name (views w v)))"
  let ?n = "sel_name (views w v)"
  have r: "load_updates (Some v) mbx w =
     (if mbx = Some ?n then (Inr (Some v), load_from v ?n w)
      else (Inr (Some v), load_from v ?n (log_event (Get_mailbox ?n False) w)))"
    using a by (auto simp: load_updates_def get_mailbox_exists)
  show "fst (load_updates (Some v) mbx w) = Inr (Some v)"
    by (simp add: r)
  show "mailboxes (snd (load_updates (Some v) mbx w)) = mailboxes w"
    by (simp add: r load_from_mailboxes)
  show "views (snd (load_updates (Some v) mbx w)) =
        (views w)(v := (views w v)\<lparr>
           sel_uid_validity := mbx_uid_validity (mailboxes w ?n),
           sel_next_uid := mbx_next_uid (mailboxes w ?n),
           sel_messages := fold (\<lambda>m. upsert (uid m) (permanent_flags m))
                             (mbx_messages (mailboxes w ?n))
                             (sel_messages (views w v))\<rparr>)"
    by (rule ext) (simp add: r load_from_views)
  show "trace (snd (load_updates (Some v) mbx w)) =
        trace w
        @ (if mbx = Some ?n then [] else [Get_mailbox ?n False])
        @ Items ?n
        # map (\<lambda>m. Add_messages v (uid m) (permanent_flags m)) (mbx_messages (mailboxes w ?n))"
    by (simp add: r load_from_trace)
qed

lemma updated_set_simps [simp]:
  "trace (updated_set mbx w) = trace w @ [Updated_set mbx]"
  "mailboxes (updated_set mbx w) n =
     (if n = mbx then (mailboxes w mbx)\<lparr>mbx_updated := Suc (mbx_updated (mailboxes w mbx))\<rparr>
      else mailboxes w n)"
  "views (updated_set mbx w) = views w"
  by (simp_all add: updated_set_def)

lemma mbx_add_simps [simp]:
  "fst (mbx_add mbx msg r w) = msg\<lparr>uid := mbx_next_uid (mailboxes w mbx), recent := r\<rparr>"
  "trace (snd (mbx_add mbx msg r w)) = trace w @ [Add mbx (mbx_next_uid (mailboxes w mbx)) r]"
  "mailboxes (snd (mbx_add mbx msg r w)) n =
     (if n = mbx
      then (mailboxes w mbx)\<lparr>
             mbx_next_uid := Suc (mbx_next_uid (mailboxes w mbx)),
             mbx_messages := mbx_messages (mailboxes w mbx)
                             @ [msg\<lparr>uid := mbx_next_uid (mailboxes w mbx), recent := r\<rparr>]\<rparr>
      else mailboxes w n)"
  "views (snd (mbx_add mbx msg r w)) = views w"
  by (simp_all add: mbx_add_def Let_def)

lemma mbx_parse_message_simps [simp]:
  "fst (mbx_parse_message mbx am w) =
     \<lparr>uid = 0, permanent_flags = am_flags am, recent = False, content = am_content am\<rparr>"
  "trace (snd (mbx_parse_message mbx am w)) = trace w @ [Parse_message mbx]"
  "mailboxes (snd (mbx_parse_message mbx am w)) = mailboxes w"
  "views (snd (mbx_parse_message mbx am w)) = views w"
  by (simp_all add: mbx_parse_message_def)

lemma sel_add_recent_simps [simp]:
  "trace (sel_add_recent v u w) = trace w @ [Add_recent v u]"
  "mailboxes (sel_add_recent v u w) = mailboxes w"
  "views (sel_add_recent v u w) v' =
     (if v' = v then (views w v)\<lparr>sel_recent := insert u (sel_recent (views w v))\<rparr>
      else views w v')"
  by (simp_all add: sel_add_recent_def)

lemma mbx_find_simps [simp]:
  "fst (mbx_find mbx s v w) = find_results s (views w v) (mailboxes w mbx)"
  "trace (snd (mbx_find mbx s v w)) = trace w @ [Find mbx s v]"
  "mailboxes (snd (mbx_find mbx s v w)) = mailboxes w"
  "views (snd (mbx_find mbx s v w)) = views w"
  by (simp_all add: mbx_find_def)

lemma mbx_save_flags_simps [simp]:
  "trace (mbx_save_flags mbx args w) = trace w @ [Save_flags mbx args]"
  "mailboxes (mbx_save_flags mbx args w) n =
     (if n = mbx
      then (mailboxes w mbx)\<lparr>mbx_messages := fold save_one args (mbx_messages (mailboxes w mbx))\<rparr>
      else mailboxes w n)"
  "views (mbx_save_flags mbx args w) = views w"
  by (simp_all add: mbx_save_flags_def)

lemma mbx_delete_simps [simp]:
  "trace (mbx_delete mbx uids w) = trace w @ [Delete mbx uids]"
  "mailboxes (mbx_delete mbx uids w) n =
     (if n = mbx
      then (mailboxes w mbx)\<lparr>mbx_messages :=
             filter (\<lambda>s. uid s \<notin> set uids) (mbx_messages (mailboxes w mbx))\<rparr>
      else mailboxes w n)"
  "views (mbx_delete mbx uids w) = views w"
  by (simp_all add: mbx_delete_def)

lemma sel_session_update_simps [simp]:
  "trace (sel_session_update v u fs mode w) = trace w @ [Session_update v u fs mode]"
  "mailboxes (sel_session_update v u fs mode w) = mailboxes w"
  "views (sel_session_update v u fs mode w) v' =
     (if v' = v
      then (views w v)\<lparr>sel_session_flags :=
             (sel_session_flags (views w v))
               (u := apply_op mode (sel_session_flags (views w v) u) fs)\<rparr>
      else views w v')"
  by (simp_all add: sel_session_update_def)

lemma msg_update_flags_simps [simp]:
  "fst (msg_update_flags msg fs mode w) =
     msg\<lparr>permanent_flags := apply_op mode (permanent_flags msg) fs\<rparr>"
  "trace (snd (msg_update_flags msg fs mode w)) = trace w @ [Update_flags (uid msg) fs mode]"
  "mailboxes (snd (msg_update_flags msg fs mode w)) = mailboxes w"
  "views (snd (msg_update_flags msg fs mode w)) = views w"
  by (simp_all add: msg_update_flags_def)

lemma get_mailbox_False:
  "snd (get_mailbox name False w) = log_event (Get_mailbox name False) w"
  by (simp add: get_mailbox_def Let_def)

text \<open>The refresh returns the view it was given, and never raises in this backend.\<close>

lemma load_updates_eq:
  "load_updates selected mbx w =
     (Inr selected,
      case selected of
        None \<Rightarrow> w
      | Some v \<Rightarrow>
          if mbx = Some (sel_name (views w v)) then load_from v (sel_name (views w v)) w
          else if mbx_exists (mailboxes w (sel_name (views w v)))
          then load_from v (sel_name (views w v))
                 (log_event (Get_mailbox (sel_name (views w v)) False) w)
          else sel_set_deleted v (log_event (Get_mailbox (sel_name (views w v)) False) w))"
  by (auto simp: load_updates_def get_mailbox_def Let_def split: option.splits)

lemma load_updates_fst: "fst (load_updates selected mbx w) = Inr selected"
  by (simp add: load_updates_eq)

lemma sel_set_deleted_simps [simp]:
  "trace (sel_set_deleted v w) = trace w @ [Set_deleted v]"
  "mailboxes (sel_set_deleted v w) = mailboxes w"
  "views (sel_set_deleted v w) v' =
     (if v' = v then (views w v)\<lparr>sel_deleted := True\<rparr> else views w v')"
  by (simp_all add: sel_set_deleted_def)

lemma load_updates_mailboxes: "mailboxes (snd (load_updates selected mbx w)) = mailboxes w"
  by (simp add: load_updates_eq load_from_mailboxes split: option.splits)

lemma load_updates_sel_recent:
  "sel_recent (views (snd (load_updates selected mbx w)) v) = sel_recent (views w v)"
  by (simp add: load_updates_eq load_from_views split: option.splits)

lemma load_updates_sel_session_flags:
  "sel_session_flags (views (snd (load_updates selected mbx w)) v) = sel_session_flags (views w v)"
  by (simp add: load_updates_eq load_from_views split: option.splits)

text \<open>
  Claim C4. An APPEND whose resolved mailbox is read-only raises \<open>MailboxReadOnly\<close>
  in the state the lookup left: the only call is \<open>get_mailbox\<close>, the views are as
  before, and so are the mailboxes when the mailbox existed. An EXPUNGE or a STORE on a
  read-only view raises \<open>MailboxReadOnly\<close> in the unchanged state, with no call made.
\<close>

theorem readonly_no_mutation:
  "(get_mailbox name True w = (Inr mbx, w1) \<and> mbx_readonly (mailboxes w1 mbx) \<longrightarrow>
      append_messages name messages selected w = (Inl (MailboxReadOnly name), w1) \<and>
      trace w1 = trace w @ [Get_mailbox name True] \<and>
      views w1 = views w \<and>
      (mbx_exists (mailboxes w name) \<longrightarrow> mailboxes w1 = mailboxes w)) \<and>
   (sel_readonly (views w v) \<longrightarrow>
      expunge_mailbox v uid_set w = (Inl (MailboxReadOnly (sel_name (views w v))), w)) \<and>
   (sel_readonly (views w v) \<longrightarrow>
      update_flags v sequence_set flag_set mode w =
        (Inl (MailboxReadOnly (sel_name (views w v))), w))"
proof (intro conjI impI)
  assume a: "get_mailbox name True w = (Inr mbx, w1) \<and> mbx_readonly (mailboxes w1 mbx)"
  then show "append_messages name messages selected w = (Inl (MailboxReadOnly name), w1)"
    by (simp add: append_messages_def bind_w_def)
  show "trace w1 = trace w @ [Get_mailbox name True]"
    using a get_mailbox_Inr(2) by blast
  show "views w1 = views w"
    using a get_mailbox_Inr(3) by blast
  show "mailboxes w1 = mailboxes w" if "mbx_exists (mailboxes w name)"
    using a that get_mailbox_Inr(5)[of name True w mbx w1] by simp
next
  assume "sel_readonly (views w v)"
  then show "expunge_mailbox v uid_set w = (Inl (MailboxReadOnly (sel_name (views w v))), w)"
    by (simp add: expunge_mailbox_def)
next
  assume "sel_readonly (views w v)"
  then show "update_flags v sequence_set flag_set mode w =
        (Inl (MailboxReadOnly (sel_name (views w v))), w)"
    by (simp add: update_flags_def)
qed

lemma upt_add_Suc: "[n ..< Suc (n + k)] = n # [Suc n ..< Suc (n + k)]"
  by (simp add: upt_conv_Cons)

lemma stored_append_Cons:
  "stored_append n r (am # ams) =
     \<lparr>uid = n, permanent_flags = am_flags am, recent = r, content = am_content am\<rparr>
     # stored_append (Suc n) r ams"
  unfolding stored_append_def by (simp add: upt_add_Suc del: upt_Suc)

lemma stored_append_Nil [simp]: "stored_append n r [] = []"
  by (simp add: stored_append_def)

lemma claim_recent_Nil [simp]: "claim_recent dest [] vs v' = vs v'"
  by (cases dest) (simp_all add: claim_recent_def)

lemma append_loop_fst:
  "fst (append_loop mbx dest ams uids w) =
     uids @ [mbx_next_uid (mailboxes w mbx) ..< mbx_next_uid (mailboxes w mbx) + length ams]"
proof (induction ams arbitrary: uids w)
  case Nil
  then show ?case by simp
next
  case (Cons am ams)
  show ?case
    by (simp add: case_prod_unfold Let_def Cons.IH upt_add_Suc del: upt_Suc split: option.split)
qed

lemma append_loop_trace:
  "trace (snd (append_loop mbx dest ams uids w)) =
     trace w @ concat (map (add_events mbx dest True)
       [mbx_next_uid (mailboxes w mbx) ..< mbx_next_uid (mailboxes w mbx) + length ams])"
proof (induction ams arbitrary: uids w)
  case Nil
  then show ?case by simp
next
  case (Cons am ams)
  show ?case
    by (simp add: case_prod_unfold Let_def Cons.IH upt_add_Suc add_events_def del: upt_Suc
          split: option.split)
qed

lemma append_loop_mailboxes:
  "mailboxes (snd (append_loop mbx dest ams uids w)) n =
     (if n = mbx
      then (mailboxes w mbx)\<lparr>
             mbx_next_uid := mbx_next_uid (mailboxes w mbx) + length ams,
             mbx_messages := mbx_messages (mailboxes w mbx)
                             @ stored_append (mbx_next_uid (mailboxes w mbx)) (dest = None) ams\<rparr>
      else mailboxes w n)"
proof (induction ams arbitrary: uids w)
  case Nil
  then show ?case by simp
next
  case (Cons am ams)
  show ?case
    by (simp add: case_prod_unfold Let_def Cons.IH stored_append_Cons split: option.split)
qed

lemma append_loop_views:
  "views (snd (append_loop mbx dest ams uids w)) v' =
     claim_recent dest
       [mbx_next_uid (mailboxes w mbx) ..< mbx_next_uid (mailboxes w mbx) + length ams]
       (views w) v'"
proof (induction ams arbitrary: uids w)
  case Nil
  then show ?case by simp
next
  case (Cons am ams)
  show ?case
    by (simp add: case_prod_unfold Let_def Cons.IH claim_recent_def upt_add_Suc
          del: upt_Suc split: option.split)
qed

lemma copied_simps [simp]:
  "copied [] = []"
  "copied ((seq, u, None) # rest) = copied rest"
  "copied ((seq, u, Some m) # rest) = (u, m) # copied rest"
  by (simp_all add: copied_def)

lemma stored_copy_Cons:
  "stored_copy n r (m # ms) = m\<lparr>uid := n, recent := r\<rparr> # stored_copy (Suc n) r ms"
  unfolding stored_copy_def by (simp add: upt_add_Suc del: upt_Suc)

lemma stored_copy_Nil [simp]: "stored_copy n r [] = []"
  by (simp add: stored_copy_def)

lemma copy_loop_fst:
  "fst (copy_loop dest dsel found uids w) =
     uids @ zip (map fst (copied found))
                [mbx_next_uid (mailboxes w dest) ..<
                 mbx_next_uid (mailboxes w dest) + length (copied found)]"
proof (induction found arbitrary: uids w)
  case Nil
  then show ?case by simp
next
  case (Cons item found)
  obtain seq u m where item: "item = (seq, u, m)"
    by (cases item)
  show ?case
  proof (cases m)
    case None
    then show ?thesis by (simp add: item Cons.IH)
  next
    case (Some msg)
    then show ?thesis
      by (simp add: item Cons.IH case_prod_unfold Let_def upt_add_Suc del: upt_Suc split: option.split)
  qed
qed

lemma copy_loop_trace:
  "trace (snd (copy_loop dest dsel found uids w)) =
     trace w @ concat (map (add_events dest dsel False)
       [mbx_next_uid (mailboxes w dest) ..<
        mbx_next_uid (mailboxes w dest) + length (copied found)])"
proof (induction found arbitrary: uids w)
  case Nil
  then show ?case by simp
next
  case (Cons item found)
  obtain seq u m where item: "item = (seq, u, m)"
    by (cases item)
  show ?case
  proof (cases m)
    case None
    then show ?thesis by (simp add: item Cons.IH)
  next
    case (Some msg)
    then show ?thesis
      by (simp add: item Cons.IH case_prod_unfold Let_def upt_add_Suc add_events_def del: upt_Suc
            split: option.split)
  qed
qed

lemma copy_loop_mailboxes:
  "mailboxes (snd (copy_loop dest dsel found uids w)) n =
     (if n = dest
      then (mailboxes w dest)\<lparr>
             mbx_next_uid := mbx_next_uid (mailboxes w dest) + length (copied found),
             mbx_messages := mbx_messages (mailboxes w dest)
                @ stored_copy (mbx_next_uid (mailboxes w dest)) (dsel = None)
                    (map snd (copied found))\<rparr>
      else mailboxes w n)"
proof (induction found arbitrary: uids w)
  case Nil
  then show ?case by simp
next
  case (Cons item found)
  obtain seq u m where item: "item = (seq, u, m)"
    by (cases item)
  show ?case
  proof (cases m)
    case None
    then show ?thesis by (simp add: item Cons.IH)
  next
    case (Some msg)
    then show ?thesis
      by (simp add: item Cons.IH case_prod_unfold Let_def stored_copy_Cons split: option.split)
  qed
qed

lemma copy_loop_views:
  "views (snd (copy_loop dest dsel found uids w)) v' =
     claim_recent dsel
       [mbx_next_uid (mailboxes w dest) ..<
        mbx_next_uid (mailboxes w dest) + length (copied found)]
       (views w) v'"
proof (induction found arbitrary: uids w)
  case Nil
  then show ?case by simp
next
  case (Cons item found)
  obtain seq u m where item: "item = (seq, u, m)"
    by (cases item)
  show ?case
  proof (cases m)
    case None
    then show ?thesis by (simp add: item Cons.IH)
  next
    case (Some msg)
    then show ?thesis
      by (simp add: item Cons.IH case_prod_unfold Let_def claim_recent_def upt_add_Suc
            del: upt_Suc split: option.split)
  qed
qed

lemma apply_op_idem [simp]:
  "apply_op mode (apply_op mode old fs) fs = apply_op mode old fs"
  by (cases mode) auto

lemma store_result_upd [simp]:
  "store_result
     (s\<lparr>sel_session_flags := (sel_session_flags s)(u := apply_op mode (sel_session_flags s u) fs)\<rparr>)
     permitted fs mode item = store_result s permitted fs mode item"
  by (auto simp: store_result_def split: prod.splits option.splits)

lemma hits_simps [simp]:
  "hits [] = []"
  "hits ((seq, u, None) # rest) = hits rest"
  "hits ((seq, u, Some m) # rest) = (seq, m) # hits rest"
  by (simp_all add: hits_def)

lemma store_loop_fst:
  "fst (store_loop v permitted fs mode found messages w) =
     messages @ map (store_result (views w v) permitted fs mode) found"
proof (induction found arbitrary: messages w)
  case Nil
  then show ?case by simp
next
  case (Cons item found)
  obtain seq u m where item: "item = (seq, u, m)"
    by (cases item)
  show ?case
  proof (cases m)
    case None
    then show ?thesis by (simp add: item Cons.IH store_result_def)
  next
    case (Some msg)
    then show ?thesis
      by (simp add: item Cons.IH case_prod_unfold Let_def)
         (simp add: store_result_def get_flags_def session_get_def Un_assoc)
  qed
qed

lemma store_loop_trace:
  "trace (snd (store_loop v permitted fs mode found messages w)) =
     trace w @ concat (map (store_events v permitted fs mode) found)"
proof (induction found arbitrary: messages w)
  case Nil
  then show ?case by simp
next
  case (Cons item found)
  obtain seq u m where item: "item = (seq, u, m)"
    by (cases item)
  show ?case
  proof (cases m)
    case None
    then show ?thesis by (simp add: item Cons.IH store_events_def)
  next
    case (Some msg)
    then show ?thesis
      by (simp add: item Cons.IH case_prod_unfold Let_def store_events_def)
  qed
qed

lemma store_loop_mailboxes:
  "mailboxes (snd (store_loop v permitted fs mode found messages w)) = mailboxes w"
proof (induction found arbitrary: messages w)
  case Nil
  then show ?case by simp
next
  case (Cons item found)
  obtain seq u m where item: "item = (seq, u, m)"
    by (cases item)
  show ?case
    by (cases m) (simp_all add: item Cons.IH case_prod_unfold Let_def)
qed

lemma store_loop_views:
  "views (snd (store_loop v permitted fs mode found messages w)) v' =
     (if v' = v
      then (views w v)\<lparr>sel_session_flags :=
             (\<lambda>u. if u \<in> hit_uids found
                  then apply_op mode (sel_session_flags (views w v) u) fs
                  else sel_session_flags (views w v) u)\<rparr>
      else views w v')"
proof (induction found arbitrary: messages w)
  case Nil
  then show ?case by (simp add: hit_uids_def)
next
  case (Cons item found)
  obtain seq u m where item: "item = (seq, u, m)"
    by (cases item)
  show ?case
  proof (cases m)
    case None
    then show ?thesis by (simp add: item Cons.IH hit_uids_def)
  next
    case (Some msg)
    then show ?thesis
      by (auto simp: item Cons.IH case_prod_unfold Let_def hit_uids_def fun_eq_iff)
  qed
qed

lemma bind_w_simps [simp]:
  "bind_w (Inr x, w) f = f x w"
  "bind_w (Inl e, w) f = (Inl e, w)"
  by (simp_all add: bind_w_def)

lemma bind_w_load_updates:
  "bind_w (load_updates s m w) f = f s (snd (load_updates s m w))"
  using load_updates_fst[of s m w]
  by (cases "load_updates s m w") (simp add: bind_w_def)

lemma load_updates_trace:
  "\<exists>post. trace (snd (load_updates s m w)) = trace w @ post \<and> list_all refresh_event post"
  by (cases s) (simp_all add: load_updates_eq load_from_trace list_all_iff image_iff)

lemma refresh_not_updated: "list_all refresh_event es \<Longrightarrow> filter is_updated_event es = []"
proof (induction es)
  case Nil
  then show ?case by simp
next
  case (Cons e es)
  then show ?case by (cases e) simp_all
qed

lemma add_events_not_updated:
  "filter is_updated_event (concat (map (add_events mbx dest parsed) us)) = []"
  by (induction us) (simp_all add: add_events_def split: option.split)

lemma store_events_not_updated:
  "filter is_updated_event (concat (map (store_events v permitted fs mode) found)) = []"
  by (induction found) (auto simp: store_events_def split: option.split)

lemma find_selected_None:
  "(find_selected selected mbx w = None) =
     ((\<forall>v. selected = Some v \<longrightarrow> sel_name (views w v) \<noteq> mbx)
      \<and> mbx_selected (mailboxes w mbx) = [])"
  by (auto simp: find_selected_def any_selected_def split: option.splits list.splits)

lemma stored_append_facts:
  "list_all (\<lambda>m. recent m = r) (stored_append n r ams)"
  "map uid (stored_append n r ams) = [n ..< n + length ams]"
  "length (stored_append n r ams) = length ams"
proof -
  show "list_all (\<lambda>m. recent m = r) (stored_append n r ams)"
    by (auto simp: stored_append_def list_all_iff)
  show "map uid (stored_append n r ams) = [n ..< n + length ams]"
    by (induction ams arbitrary: n) (simp_all add: stored_append_Cons upt_add_Suc del: upt_Suc)
  show "length (stored_append n r ams) = length ams"
    by (simp add: stored_append_def)
qed

lemma stored_copy_facts:
  "list_all (\<lambda>m. recent m = r) (stored_copy n r ms)"
  "map uid (stored_copy n r ms) = [n ..< n + length ms]"
  "length (stored_copy n r ms) = length ms"
proof -
  show "list_all (\<lambda>m. recent m = r) (stored_copy n r ms)"
    by (auto simp: stored_copy_def list_all_iff)
  show "map uid (stored_copy n r ms) = [n ..< n + length ms]"
    by (induction ms arbitrary: n) (simp_all add: stored_copy_Cons upt_add_Suc del: upt_Suc)
  show "length (stored_copy n r ms) = length ms"
    by (simp add: stored_copy_def)
qed

lemma append_messages_ok:
  assumes "get_mailbox name True w = (Inr mbx, w1)" and "\<not> mbx_readonly (mailboxes w1 mbx)"
  shows "append_messages name messages selected w =
     (Inr (AppendUid (mbx_uid_validity (mailboxes w1 mbx))
             [mbx_next_uid (mailboxes w1 mbx) ..<
              mbx_next_uid (mailboxes w1 mbx) + length messages], selected),
      snd (load_updates selected (Some mbx)
             (updated_set mbx
                (snd (append_loop mbx (find_selected selected mbx w1) messages [] w1)))))"
  using assms
  by (simp add: append_messages_def Let_def case_prod_unfold bind_w_load_updates
        append_loop_fst append_loop_mailboxes)

lemma copy_messages_ok:
  assumes "get_mailbox (sel_name (views w v)) False w = (Inr mbx, w1)"
    and "get_mailbox mailbox True w1 = (Inr dest, w2)"
    and "\<not> mbx_readonly (mailboxes w2 dest)"
  shows "copy_messages v sequence_set mailbox w =
     (Inr (CopyUid (mbx_uid_validity (mailboxes w2 dest))
             (zip (map fst (copied (find_results sequence_set (views w2 v) (mailboxes w2 mbx))))
                [mbx_next_uid (mailboxes w2 dest) ..<
                 mbx_next_uid (mailboxes w2 dest)
                 + length (copied (find_results sequence_set (views w2 v) (mailboxes w2 mbx)))]),
           Some v),
      snd (load_updates (Some v) (Some mbx)
             (updated_set dest
                (snd (copy_loop dest (find_selected (Some v) dest w2)
                        (find_results sequence_set (views w2 v) (mailboxes w2 mbx)) []
                        (snd (mbx_find mbx sequence_set v w2)))))))"
  using assms
  by (simp add: copy_messages_def Let_def case_prod_unfold bind_w_load_updates
        copy_loop_fst copy_loop_mailboxes)

lemma claim_recent_sel_recent:
  "sel_recent (claim_recent dest uids vs v') =
     (if dest = Some v' then sel_recent (vs v') \<union> set uids else sel_recent (vs v'))"
  by (auto simp: claim_recent_def split: option.splits)

text \<open>
  Claim C5. After a successful APPEND the destination holds its old messages followed
  by the appended ones, all stored with the recent bit set exactly when no view was
  found for the destination (\<open>_find_selected\<close> gave none); and the view found, if any,
  has gained the new UIDs in its session-recent set, every other view's recent set
  being as before. The same holds for the messages a COPY adds to its destination.
\<close>

theorem recent_ownership:
  "(get_mailbox name True w = (Inr mbx, w1) \<and> \<not> mbx_readonly (mailboxes w1 mbx) \<longrightarrow>
      (let dest_selected = find_selected selected mbx w1;
           n = mbx_next_uid (mailboxes w1 mbx);
           new = stored_append n (dest_selected = None) messages;
           w' = snd (append_messages name messages selected w)
       in mbx_messages (mailboxes w' mbx) = mbx_messages (mailboxes w1 mbx) @ new
          \<and> length new = length messages
          \<and> list_all (\<lambda>m. recent m = (dest_selected = None)) new
          \<and> (\<forall>v'. sel_recent (views w' v') =
                 (if dest_selected = Some v' then sel_recent (views w v') \<union> set (map uid new)
                  else sel_recent (views w v'))))) \<and>
   (get_mailbox (sel_name (views w v)) False w = (Inr src, w2)
    \<and> get_mailbox mailbox True w2 = (Inr dest, w3) \<and> \<not> mbx_readonly (mailboxes w3 dest) \<longrightarrow>
      (let dest_selected = find_selected (Some v) dest w3;
           n = mbx_next_uid (mailboxes w3 dest);
           found = find_results sequence_set (views w v) (mailboxes w3 src);
           new = stored_copy n (dest_selected = None) (map snd (copied found));
           w' = snd (copy_messages v sequence_set mailbox w)
       in mbx_messages (mailboxes w' dest) = mbx_messages (mailboxes w3 dest) @ new
          \<and> length new = length (copied found)
          \<and> list_all (\<lambda>m. recent m = (dest_selected = None)) new
          \<and> (\<forall>v'. sel_recent (views w' v') =
                 (if dest_selected = Some v' then sel_recent (views w v') \<union> set (map uid new)
                  else sel_recent (views w v')))))"
proof (intro conjI impI)
  assume a: "get_mailbox name True w = (Inr mbx, w1) \<and> \<not> mbx_readonly (mailboxes w1 mbx)"
  have v1: "views w1 = views w"
    using a get_mailbox_Inr(3) by blast
  show "let dest_selected = find_selected selected mbx w1;
           n = mbx_next_uid (mailboxes w1 mbx);
           new = stored_append n (dest_selected = None) messages;
           w' = snd (append_messages name messages selected w)
       in mbx_messages (mailboxes w' mbx) = mbx_messages (mailboxes w1 mbx) @ new
          \<and> length new = length messages
          \<and> list_all (\<lambda>m. recent m = (dest_selected = None)) new
          \<and> (\<forall>v'. sel_recent (views w' v') =
                 (if dest_selected = Some v' then sel_recent (views w v') \<union> set (map uid new)
                  else sel_recent (views w v')))"
    using a
    by (simp add: Let_def append_messages_ok load_updates_mailboxes load_updates_sel_recent
          append_loop_mailboxes append_loop_views claim_recent_sel_recent stored_append_facts v1
          del: upt_Suc)
next
  assume a: "get_mailbox (sel_name (views w v)) False w = (Inr src, w2)
    \<and> get_mailbox mailbox True w2 = (Inr dest, w3) \<and> \<not> mbx_readonly (mailboxes w3 dest)"
  have v3: "views w3 = views w"
    using a get_mailbox_Inr(3) by metis
  show "let dest_selected = find_selected (Some v) dest w3;
           n = mbx_next_uid (mailboxes w3 dest);
           found = find_results sequence_set (views w v) (mailboxes w3 src);
           new = stored_copy n (dest_selected = None) (map snd (copied found));
           w' = snd (copy_messages v sequence_set mailbox w)
       in mbx_messages (mailboxes w' dest) = mbx_messages (mailboxes w3 dest) @ new
          \<and> length new = length (copied found)
          \<and> list_all (\<lambda>m. recent m = (dest_selected = None)) new
          \<and> (\<forall>v'. sel_recent (views w' v') =
                 (if dest_selected = Some v' then sel_recent (views w v') \<union> set (map uid new)
                  else sel_recent (views w v')))"
    using a
    by (simp add: Let_def copy_messages_ok load_updates_mailboxes load_updates_sel_recent
          copy_loop_mailboxes copy_loop_views claim_recent_sel_recent stored_copy_facts v3
          del: upt_Suc)
qed

text \<open>
  Claim C8. A successful APPEND returns \<open>APPENDUID\<close> with the UID validity the
  destination had when it was resolved, which it still has afterwards, and the UIDs
  of the appended messages in order: the next UIDs of the mailbox, which are the UIDs
  of the messages added to the store. A successful COPY returns \<open>COPYUID\<close> with the
  destination's UID validity and the pairs of source UID and assigned UID.
\<close>

theorem uidplus_response:
  "(get_mailbox name True w = (Inr mbx, w1) \<and> \<not> mbx_readonly (mailboxes w1 mbx) \<longrightarrow>
      (let n = mbx_next_uid (mailboxes w1 mbx);
           res = append_messages name messages selected w
       in fst res = Inr (AppendUid (mbx_uid_validity (mailboxes w1 mbx))
                           [n ..< n + length messages], selected)
          \<and> map uid (drop (length (mbx_messages (mailboxes w1 mbx)))
                        (mbx_messages (mailboxes (snd res) mbx))) = [n ..< n + length messages]
          \<and> mbx_uid_validity (mailboxes (snd res) mbx) = mbx_uid_validity (mailboxes w1 mbx))) \<and>
   (get_mailbox (sel_name (views w v)) False w = (Inr src, w2)
    \<and> get_mailbox mailbox True w2 = (Inr dest, w3) \<and> \<not> mbx_readonly (mailboxes w3 dest) \<longrightarrow>
      (let n = mbx_next_uid (mailboxes w3 dest);
           found = find_results sequence_set (views w v) (mailboxes w3 src);
           res = copy_messages v sequence_set mailbox w
       in fst res = Inr (CopyUid (mbx_uid_validity (mailboxes w3 dest))
                           (zip (map fst (copied found)) [n ..< n + length (copied found)]),
                         Some v)
          \<and> map uid (drop (length (mbx_messages (mailboxes w3 dest)))
                        (mbx_messages (mailboxes (snd res) dest)))
              = [n ..< n + length (copied found)]
          \<and> mbx_uid_validity (mailboxes (snd res) dest) = mbx_uid_validity (mailboxes w3 dest)))"
proof (intro conjI impI)
  assume a: "get_mailbox name True w = (Inr mbx, w1) \<and> \<not> mbx_readonly (mailboxes w1 mbx)"
  then show "let n = mbx_next_uid (mailboxes w1 mbx);
           res = append_messages name messages selected w
       in fst res = Inr (AppendUid (mbx_uid_validity (mailboxes w1 mbx))
                           [n ..< n + length messages], selected)
          \<and> map uid (drop (length (mbx_messages (mailboxes w1 mbx)))
                        (mbx_messages (mailboxes (snd res) mbx))) = [n ..< n + length messages]
          \<and> mbx_uid_validity (mailboxes (snd res) mbx) = mbx_uid_validity (mailboxes w1 mbx)"
    by (simp add: Let_def append_messages_ok load_updates_mailboxes append_loop_mailboxes
          stored_append_facts del: upt_Suc)
next
  assume a: "get_mailbox (sel_name (views w v)) False w = (Inr src, w2)
    \<and> get_mailbox mailbox True w2 = (Inr dest, w3) \<and> \<not> mbx_readonly (mailboxes w3 dest)"
  have v3: "views w3 = views w"
    using a get_mailbox_Inr(3) by metis
  show "let n = mbx_next_uid (mailboxes w3 dest);
           found = find_results sequence_set (views w v) (mailboxes w3 src);
           res = copy_messages v sequence_set mailbox w
       in fst res = Inr (CopyUid (mbx_uid_validity (mailboxes w3 dest))
                           (zip (map fst (copied found)) [n ..< n + length (copied found)]),
                         Some v)
          \<and> map uid (drop (length (mbx_messages (mailboxes w3 dest)))
                        (mbx_messages (mailboxes (snd res) dest)))
              = [n ..< n + length (copied found)]
          \<and> mbx_uid_validity (mailboxes (snd res) dest) = mbx_uid_validity (mailboxes w3 dest)"
    using a
    by (simp add: Let_def copy_messages_ok load_updates_mailboxes copy_loop_mailboxes
          stored_copy_facts v3 del: upt_Suc)
qed

lemma expunge_mailbox_ok:
  assumes "\<not> sel_readonly (views w v)"
    and "get_mailbox (sel_name (views w v)) False w = (Inr mbx, w1)"
  shows "expunge_mailbox v uid_set w =
     (Inr (Some v),
      snd (load_updates (Some v) (Some mbx)
        (updated_set mbx
          (mbx_delete mbx
             (expunge_uids (find_results
                (case uid_set of None \<Rightarrow> SequenceSet_all True | Some s \<Rightarrow> s)
                (views w1 v) (mailboxes w1 mbx)))
             (snd (mbx_find mbx (case uid_set of None \<Rightarrow> SequenceSet_all True | Some s \<Rightarrow> s)
                     v w1))))))"
proof -
  have lu: "load_updates s m w' = (Inr s, snd (load_updates s m w'))" for s m w'
    by (metis load_updates_fst prod.collapse)
  show ?thesis
    using assms
    by (simp add: expunge_mailbox_def Let_def case_prod_unfold expunge_uids_def) (rule lu)
qed

lemma update_flags_ok:
  assumes "\<not> sel_readonly (views w v)"
    and "get_mailbox (sel_name (views w v)) False w = (Inr mbx, w1)"
  shows "update_flags v sequence_set flag_set mode w =
     (let found = find_results sequence_set (views w1 v) (mailboxes w1 mbx);
          permitted = sel_permanent_flags (views w1 v) \<inter> flag_set;
          lp = store_loop v permitted flag_set mode found []
                 (snd (mbx_find mbx sequence_set v w1))
      in (Inr (fst lp, Some v),
          snd (load_updates (Some v) (Some mbx)
            (updated_set mbx
              (mbx_save_flags mbx (map (\<lambda>(s, u, fl). ArgTriple s u fl) (fst lp)) (snd lp))))))"
  using assms
  by (simp add: update_flags_def Let_def case_prod_unfold bind_w_load_updates)

text \<open>
  Claim C10. On a successful \<open>append_messages\<close>, \<open>expunge_mailbox\<close>,
  \<open>copy_messages\<close> and \<open>update_flags\<close>, the calls made are: calls that set no update
  event, then \<open>updated.set()\<close> on the destination mailbox, then calls of the refresh
  only; and the destination's event has been set one more time than before. Nothing
  is assumed of the messages: the lists may be empty and the sequence set may match
  nothing.
\<close>

theorem updated_event_once:
  "(get_mailbox name True w = (Inr mbx, w1) \<and> \<not> mbx_readonly (mailboxes w1 mbx) \<longrightarrow>
      (\<exists>pre post.
          trace (snd (append_messages name messages selected w))
            = trace w @ pre @ [Updated_set mbx] @ post
          \<and> filter is_updated_event pre = [] \<and> list_all refresh_event post
          \<and> filter is_updated_event post = [])
      \<and> mbx_updated (mailboxes (snd (append_messages name messages selected w)) mbx)
          = Suc (mbx_updated (mailboxes w1 mbx))) \<and>
   (\<not> sel_readonly (views w v)
    \<and> get_mailbox (sel_name (views w v)) False w = (Inr src, w2) \<longrightarrow>
      (\<exists>pre post.
          trace (snd (expunge_mailbox v uid_set w)) = trace w @ pre @ [Updated_set src] @ post
          \<and> filter is_updated_event pre = [] \<and> list_all refresh_event post
          \<and> filter is_updated_event post = [])
      \<and> mbx_updated (mailboxes (snd (expunge_mailbox v uid_set w)) src)
          = Suc (mbx_updated (mailboxes w src))) \<and>
   (get_mailbox (sel_name (views w v)) False w = (Inr src, w2)
    \<and> get_mailbox mailbox True w2 = (Inr dest, w3) \<and> \<not> mbx_readonly (mailboxes w3 dest) \<longrightarrow>
      (\<exists>pre post.
          trace (snd (copy_messages v sequence_set mailbox w))
            = trace w @ pre @ [Updated_set dest] @ post
          \<and> filter is_updated_event pre = [] \<and> list_all refresh_event post
          \<and> filter is_updated_event post = [])
      \<and> mbx_updated (mailboxes (snd (copy_messages v sequence_set mailbox w)) dest)
          = Suc (mbx_updated (mailboxes w3 dest))) \<and>
   (\<not> sel_readonly (views w v)
    \<and> get_mailbox (sel_name (views w v)) False w = (Inr src, w2) \<longrightarrow>
      (\<exists>pre post.
          trace (snd (update_flags v sequence_set flag_set mode w))
            = trace w @ pre @ [Updated_set src] @ post
          \<and> filter is_updated_event pre = [] \<and> list_all refresh_event post
          \<and> filter is_updated_event post = [])
      \<and> mbx_updated (mailboxes (snd (update_flags v sequence_set flag_set mode w)) src)
          = Suc (mbx_updated (mailboxes w src)))"
proof (intro conjI impI)
  assume a: "get_mailbox name True w = (Inr mbx, w1) \<and> \<not> mbx_readonly (mailboxes w1 mbx)"
  let ?w2 = "updated_set mbx
               (snd (append_loop mbx (find_selected selected mbx w1) messages [] w1))"
  obtain post where post: "trace (snd (load_updates selected (Some mbx) ?w2)) = trace ?w2 @ post"
      "list_all refresh_event post"
    using load_updates_trace by blast
  have t1: "trace w1 = trace w @ [Get_mailbox name True]"
    using a get_mailbox_Inr(2) by blast
  let ?pre = "Get_mailbox name True # concat (map (add_events mbx (find_selected selected mbx w1) True)
       [mbx_next_uid (mailboxes w1 mbx) ..< mbx_next_uid (mailboxes w1 mbx) + length messages])"
  have "trace (snd (append_messages name messages selected w))
            = trace w @ ?pre @ [Updated_set mbx] @ post"
    using a post(1) by (simp add: append_messages_ok append_loop_trace t1 del: upt_Suc)
  moreover have "filter is_updated_event ?pre = []"
    by (simp add: add_events_not_updated del: upt_Suc)
  ultimately show "\<exists>pre post.
          trace (snd (append_messages name messages selected w))
            = trace w @ pre @ [Updated_set mbx] @ post
          \<and> filter is_updated_event pre = [] \<and> list_all refresh_event post
          \<and> filter is_updated_event post = []"
    using post(2) refresh_not_updated by blast
  show "mbx_updated (mailboxes (snd (append_messages name messages selected w)) mbx)
          = Suc (mbx_updated (mailboxes w1 mbx))"
    using a by (simp add: append_messages_ok load_updates_mailboxes append_loop_mailboxes)
next
  assume a: "\<not> sel_readonly (views w v)
    \<and> get_mailbox (sel_name (views w v)) False w = (Inr src, w2)"
  have w2: "w2 = log_event (Get_mailbox (sel_name (views w v)) False) w"
    using a get_mailbox_False[of "sel_name (views w v)" w] by simp
  let ?s = "case uid_set of None \<Rightarrow> SequenceSet_all True | Some s \<Rightarrow> s"
  let ?uids = "expunge_uids (find_results ?s (views w2 v) (mailboxes w2 src))"
  let ?w3 = "updated_set src (mbx_delete src ?uids (snd (mbx_find src ?s v w2)))"
  obtain post where post: "trace (snd (load_updates (Some v) (Some src) ?w3)) = trace ?w3 @ post"
      "list_all refresh_event post"
    using load_updates_trace by blast
  let ?pre = "[Get_mailbox (sel_name (views w v)) False, Find src ?s v, Delete src ?uids]"
  have "trace (snd (expunge_mailbox v uid_set w)) = trace w @ ?pre @ [Updated_set src] @ post"
    using a post(1) by (simp add: expunge_mailbox_ok w2)
  moreover have "filter is_updated_event ?pre = []"
    by simp
  ultimately show "\<exists>pre post.
          trace (snd (expunge_mailbox v uid_set w)) = trace w @ pre @ [Updated_set src] @ post
          \<and> filter is_updated_event pre = [] \<and> list_all refresh_event post
          \<and> filter is_updated_event post = []"
    using post(2) refresh_not_updated by blast
  show "mbx_updated (mailboxes (snd (expunge_mailbox v uid_set w)) src)
          = Suc (mbx_updated (mailboxes w src))"
    using a by (simp add: expunge_mailbox_ok load_updates_mailboxes w2)
next
  assume a: "get_mailbox (sel_name (views w v)) False w = (Inr src, w2)
    \<and> get_mailbox mailbox True w2 = (Inr dest, w3) \<and> \<not> mbx_readonly (mailboxes w3 dest)"
  let ?found = "find_results sequence_set (views w3 v) (mailboxes w3 src)"
  let ?dsel = "find_selected (Some v) dest w3"
  let ?w4 = "updated_set dest
               (snd (copy_loop dest ?dsel ?found [] (snd (mbx_find src sequence_set v w3))))"
  obtain post where post: "trace (snd (load_updates (Some v) (Some src) ?w4)) = trace ?w4 @ post"
      "list_all refresh_event post"
    using load_updates_trace by blast
  have t3: "trace w3 = trace w @ [Get_mailbox (sel_name (views w v)) False, Get_mailbox mailbox True]"
    using a get_mailbox_Inr(2)[of "sel_name (views w v)" False w src w2]
      get_mailbox_Inr(2)[of mailbox True w2 dest w3] by simp
  let ?pre = "[Get_mailbox (sel_name (views w v)) False, Get_mailbox mailbox True,
               Find src sequence_set v]
              @ concat (map (add_events dest ?dsel False)
                  [mbx_next_uid (mailboxes w3 dest) ..<
                   mbx_next_uid (mailboxes w3 dest) + length (copied ?found)])"
  have "trace (snd (copy_messages v sequence_set mailbox w))
            = trace w @ ?pre @ [Updated_set dest] @ post"
    using a post(1) by (simp add: copy_messages_ok copy_loop_trace t3 del: upt_Suc)
  moreover have "filter is_updated_event ?pre = []"
    by (simp add: add_events_not_updated del: upt_Suc)
  ultimately show "\<exists>pre post.
          trace (snd (copy_messages v sequence_set mailbox w))
            = trace w @ pre @ [Updated_set dest] @ post
          \<and> filter is_updated_event pre = [] \<and> list_all refresh_event post
          \<and> filter is_updated_event post = []"
    using post(2) refresh_not_updated by blast
  show "mbx_updated (mailboxes (snd (copy_messages v sequence_set mailbox w)) dest)
          = Suc (mbx_updated (mailboxes w3 dest))"
    using a by (simp add: copy_messages_ok load_updates_mailboxes copy_loop_mailboxes)
next
  assume a: "\<not> sel_readonly (views w v)
    \<and> get_mailbox (sel_name (views w v)) False w = (Inr src, w2)"
  have w2: "w2 = log_event (Get_mailbox (sel_name (views w v)) False) w"
    using a get_mailbox_False[of "sel_name (views w v)" w] by simp
  let ?found = "find_results sequence_set (views w2 v) (mailboxes w2 src)"
  let ?permitted = "sel_permanent_flags (views w2 v) \<inter> flag_set"
  let ?lp = "store_loop v ?permitted flag_set mode ?found [] (snd (mbx_find src sequence_set v w2))"
  let ?args = "map (\<lambda>(s, u, fl). ArgTriple s u fl) (fst ?lp)"
  let ?w3 = "updated_set src (mbx_save_flags src ?args (snd ?lp))"
  obtain post where post: "trace (snd (load_updates (Some v) (Some src) ?w3)) = trace ?w3 @ post"
      "list_all refresh_event post"
    using load_updates_trace by blast
  let ?pre = "[Get_mailbox (sel_name (views w v)) False, Find src sequence_set v]
              @ concat (map (store_events v ?permitted flag_set mode) ?found)
              @ [Save_flags src ?args]"
  have "trace (snd (update_flags v sequence_set flag_set mode w))
            = trace w @ ?pre @ [Updated_set src] @ post"
    using a post(1) by (simp add: update_flags_ok Let_def store_loop_trace w2)
  moreover have "filter is_updated_event ?pre = []"
    by (simp add: store_events_not_updated)
  ultimately show "\<exists>pre post.
          trace (snd (update_flags v sequence_set flag_set mode w))
            = trace w @ pre @ [Updated_set src] @ post
          \<and> filter is_updated_event pre = [] \<and> list_all refresh_event post
          \<and> filter is_updated_event post = []"
    using post(2) refresh_not_updated by blast
  show "mbx_updated (mailboxes (snd (update_flags v sequence_set flag_set mode w)) src)
          = Suc (mbx_updated (mailboxes w src))"
    using a by (simp add: update_flags_ok Let_def load_updates_mailboxes store_loop_mailboxes w2)
qed

lemma hit_in_hit_uids: "(seq, u, Some msg) \<in> set found \<Longrightarrow> uid msg \<in> hit_uids found"
proof -
  assume a: "(seq, u, Some msg) \<in> set found"
  have "(seq, msg) \<in> set (hits found)"
    using a by (force simp: hits_def)
  then show ?thesis
    by (force simp: hit_uids_def)
qed

lemma apply_op_empty: "mode \<noteq> REPLACE \<Longrightarrow> apply_op mode old {} = old"
  by (cases mode) simp_all

text \<open>
  Claim C2, as the code has it by design. STORE on a writable view returns one triple
  for each result of \<open>find\<close>: for a hit \<open>(seq, uid, flags)\<close> where \<open>flags\<close> is the union
  of the message's permanent flags after the mode was applied with the permitted set
  (the view's permanent flags that were requested) and the session flags the view then
  has for the message's UID; for a miss the empty set. The view's session flags of
  every hit UID are the old ones with the mode applied with the full requested set,
  those of every other UID and the recent set are as before. The calls are, for each
  hit, \<open>Message.update_flags\<close> with the permitted set and \<open>session_flags.update\<close>
  with the requested set. When the permitted set is empty and the mode is \<open>ADD\<close> or
  \<open>REMOVE\<close>, the message's permanent flags are the ones it had.
\<close>

theorem store_flags:
  "\<not> sel_readonly (views w v)
   \<and> get_mailbox (sel_name (views w v)) False w = (Inr mbx, w1) \<longrightarrow>
     (let found = find_results sequence_set (views w v) (mailboxes w mbx);
          permitted = sel_permanent_flags (views w v) \<inter> flag_set;
          res = update_flags v sequence_set flag_set mode w;
          view' = views (snd res) v
      in fst res =
           Inr (map (\<lambda>(seq, u, m).
                  (seq, u, case m of
                             None \<Rightarrow> {}
                           | Some msg \<Rightarrow> apply_op mode (permanent_flags msg) permitted
                                         \<union> session_get view' (uid msg))) found,
                Some v)
         \<and> (\<forall>u. sel_session_flags view' u =
                  (if u \<in> hit_uids found
                   then apply_op mode (sel_session_flags (views w v) u) flag_set
                   else sel_session_flags (views w v) u))
         \<and> sel_recent view' = sel_recent (views w v)
         \<and> (\<exists>post. trace (snd res) =
                trace w @ [Get_mailbox (sel_name (views w v)) False, Find mbx sequence_set v]
                @ concat (map (store_events v permitted flag_set mode) found) @ post)
         \<and> (permitted = {} \<and> mode \<noteq> REPLACE \<longrightarrow>
              fst res =
                Inr (map (\<lambda>(seq, u, m).
                       (seq, u, case m of
                                  None \<Rightarrow> {}
                                | Some msg \<Rightarrow> permanent_flags msg
                                              \<union> session_get view' (uid msg))) found,
                     Some v)))"
proof (intro impI)
  assume a: "\<not> sel_readonly (views w v)
   \<and> get_mailbox (sel_name (views w v)) False w = (Inr mbx, w1)"
  have w1: "w1 = log_event (Get_mailbox (sel_name (views w v)) False) w"
    using a get_mailbox_False[of "sel_name (views w v)" w] by simp
  define found where "found = find_results sequence_set (views w v) (mailboxes w mbx)"
  define permitted where "permitted = sel_permanent_flags (views w v) \<inter> flag_set"
  define lp where "lp = store_loop v permitted flag_set mode found []
                          (snd (mbx_find mbx sequence_set v w1))"
  define res where "res = update_flags v sequence_set flag_set mode w"
  define view' where "view' = views (snd res) v"
  have res: "res = (Inr (fst lp, Some v),
      snd (load_updates (Some v) (Some mbx)
        (updated_set mbx
          (mbx_save_flags mbx (map (\<lambda>(s, u, fl). ArgTriple s u fl) (fst lp)) (snd lp)))))"
    using a update_flags_ok[of w v mbx w1 sequence_set flag_set mode]
    by (simp add: res_def lp_def found_def permitted_def Let_def w1)
  have table: "sel_session_flags view' u =
      (if u \<in> hit_uids found
       then apply_op mode (sel_session_flags (views w v) u) flag_set
       else sel_session_flags (views w v) u)" for u
    by (simp add: view'_def res load_updates_sel_session_flags lp_def store_loop_views w1)
  have rec: "sel_recent view' = sel_recent (views w v)"
    by (simp add: view'_def res load_updates_sel_recent lp_def store_loop_views w1)
  have item: "store_result (views w v) permitted flag_set mode item =
      (case item of (seq, u, m) \<Rightarrow>
         (seq, u, case m of
                    None \<Rightarrow> {}
                  | Some msg \<Rightarrow> apply_op mode (permanent_flags msg) permitted
                                \<union> session_get view' (uid msg)))"
    if "item \<in> set found" for item
  proof -
    obtain seq u m where i: "item = (seq, u, m)"
      by (cases item)
    show ?thesis
    proof (cases m)
      case None
      then show ?thesis by (simp add: i store_result_def)
    next
      case (Some msg)
      then have "uid msg \<in> hit_uids found"
        using that i hit_in_hit_uids by blast
      then show ?thesis
        by (simp add: i Some store_result_def session_get_def table rec Un_assoc)
    qed
  qed
  have fst_res: "fst res =
           Inr (map (\<lambda>(seq, u, m).
                  (seq, u, case m of
                             None \<Rightarrow> {}
                           | Some msg \<Rightarrow> apply_op mode (permanent_flags msg) permitted
                                         \<union> session_get view' (uid msg))) found,
                Some v)"
    using item by (simp add: res lp_def store_loop_fst w1 cong: map_cong)
  obtain post0 where post0:
    "trace (snd res) = trace (updated_set mbx
          (mbx_save_flags mbx (map (\<lambda>(s, u, fl). ArgTriple s u fl) (fst lp)) (snd lp))) @ post0"
    using load_updates_trace by (metis res snd_conv)
  have tr: "\<exists>post. trace (snd res) =
                trace w @ [Get_mailbox (sel_name (views w v)) False, Find mbx sequence_set v]
                @ concat (map (store_events v permitted flag_set mode) found) @ post"
    by (simp add: post0 lp_def store_loop_trace w1)
  have unchanged: "fst res =
                Inr (map (\<lambda>(seq, u, m).
                       (seq, u, case m of
                                  None \<Rightarrow> {}
                                | Some msg \<Rightarrow> permanent_flags msg
                                              \<union> session_get view' (uid msg))) found,
                     Some v)"
    if "permitted = {} \<and> mode \<noteq> REPLACE"
  proof -
    from that have p: "permitted = {}" and m: "mode \<noteq> REPLACE"
      by simp_all
    show ?thesis
      using fst_res unfolding p
      by (auto simp: apply_op_empty[OF m] split: option.splits)
  qed
  show "let found = find_results sequence_set (views w v) (mailboxes w mbx);
          permitted = sel_permanent_flags (views w v) \<inter> flag_set;
          res = update_flags v sequence_set flag_set mode w;
          view' = views (snd res) v
      in fst res =
           Inr (map (\<lambda>(seq, u, m).
                  (seq, u, case m of
                             None \<Rightarrow> {}
                           | Some msg \<Rightarrow> apply_op mode (permanent_flags msg) permitted
                                         \<union> session_get view' (uid msg))) found,
                Some v)
         \<and> (\<forall>u. sel_session_flags view' u =
                  (if u \<in> hit_uids found
                   then apply_op mode (sel_session_flags (views w v) u) flag_set
                   else sel_session_flags (views w v) u))
         \<and> sel_recent view' = sel_recent (views w v)
         \<and> (\<exists>post. trace (snd res) =
                trace w @ [Get_mailbox (sel_name (views w v)) False, Find mbx sequence_set v]
                @ concat (map (store_events v permitted flag_set mode) found) @ post)
         \<and> (permitted = {} \<and> mode \<noteq> REPLACE \<longrightarrow>
              fst res =
                Inr (map (\<lambda>(seq, u, m).
                       (seq, u, case m of
                                  None \<Rightarrow> {}
                                | Some msg \<Rightarrow> permanent_flags msg
                                              \<union> session_get view' (uid msg))) found,
                     Some v))"
    unfolding Let_def
    using fst_res table rec tr unchanged
    unfolding found_def permitted_def res_def view'_def
    by blast
qed

lemma example_world_simps [simp]:
  "mailboxes example_world ''INBOX'' = inbox"
  "mailboxes example_world ''Archive'' = archive"
  "mailboxes example_world ''Frozen'' = frozen"
  "mailboxes example_world ''Gone'' = no_mailbox"
  "views example_world 0 = view_0"
  "views example_world (Suc 0) = view_1"
  "views example_world 2 = view_2"
  "trace example_world = []"
  by (simp_all add: example_world_def)

theorem load_updates_cases_witness:
  "load_updates None (Some ''INBOX'') example_world = (Inr None, example_world) \<and>
   fst (load_updates (Some 2) None example_world) = Inr (Some 2) \<and>
   sel_deleted (views (snd (load_updates (Some 2) None example_world)) 2) \<and>
   trace (snd (load_updates (Some 2) None example_world))
     = [Get_mailbox ''Gone'' False, Set_deleted 2] \<and>
   fst (load_updates (Some 0) (Some ''Archive'') example_world) = Inr (Some 0) \<and>
   trace (snd (load_updates (Some 0) (Some ''Archive'') example_world))
     = [Get_mailbox ''INBOX'' False, Items ''INBOX'', Add_messages 0 1 {Seen},
        Add_messages 0 3 {Deleted}] \<and>
   sel_uid_validity (views (snd (load_updates (Some 0) (Some ''Archive'') example_world)) 0) = 7 \<and>
   sel_next_uid (views (snd (load_updates (Some 0) (Some ''Archive'') example_world)) 0) = 4 \<and>
   trace (snd (load_updates (Some 0) (Some ''INBOX'') example_world))
     = [Items ''INBOX'', Add_messages 0 1 {Seen}, Add_messages 0 3 {Deleted}]"
  using load_updates_cases[of "Some ''INBOX''" example_world 0]
        load_updates_cases[of None example_world 2]
        load_updates_cases[of "Some ''Archive''" example_world 0]
  by (simp add: view_0_def view_2_def inbox_def no_mailbox_def message_1_def message_3_def)

lemma example_fields [simp]:
  "sel_name view_0 = ''INBOX''" "sel_name view_1 = ''INBOX''" "sel_name view_2 = ''Gone''"
  "sel_readonly view_0 = False" "sel_readonly view_1 = True" "sel_readonly view_2 = False"
  "sel_recent view_0 = {}" "sel_recent view_1 = {}" "sel_recent view_2 = {}"
  "sel_permanent_flags view_0 = {Seen, Deleted}"
  "sel_session_flags view_0 = (\<lambda>_. {})"
  "mbx_exists inbox" "mbx_exists archive" "mbx_exists frozen" "\<not> mbx_exists no_mailbox"
  "mbx_readonly inbox = False" "mbx_readonly archive = False" "mbx_readonly frozen = True"
  "mbx_next_uid inbox = 4" "mbx_next_uid archive = Suc 0"
  "mbx_uid_validity inbox = 7" "mbx_uid_validity archive = 9"
  "mbx_messages inbox = [message_1, message_3]" "mbx_messages archive = []"
  "mbx_selected inbox = [0, Suc 0]" "mbx_selected archive = []"
  "mbx_updated inbox = 0" "mbx_updated archive = 0"
  by (simp_all add: view_0_def view_1_def view_2_def inbox_def archive_def frozen_def
        no_mailbox_def)

lemma example_get_mailbox:
  "get_mailbox ''INBOX'' tc example_world
     = (Inr ''INBOX'', log_event (Get_mailbox ''INBOX'' tc) example_world)"
  "get_mailbox ''Archive'' tc example_world
     = (Inr ''Archive'', log_event (Get_mailbox ''Archive'' tc) example_world)"
  "get_mailbox ''Frozen'' tc example_world
     = (Inr ''Frozen'', log_event (Get_mailbox ''Frozen'' tc) example_world)"
  "get_mailbox ''Archive'' tc (log_event ev example_world)
     = (Inr ''Archive'', log_event (Get_mailbox ''Archive'' tc) (log_event ev example_world))"
  "get_mailbox ''INBOX'' tc (log_event ev example_world)
     = (Inr ''INBOX'', log_event (Get_mailbox ''INBOX'' tc) (log_event ev example_world))"
  by (simp_all add: get_mailbox_exists)

theorem readonly_no_mutation_witness:
  "get_mailbox ''Frozen'' True example_world
     = (Inr ''Frozen'', log_event (Get_mailbox ''Frozen'' True) example_world) \<and>
   mbx_readonly (mailboxes (log_event (Get_mailbox ''Frozen'' True) example_world) ''Frozen'') \<and>
   append_messages ''Frozen'' [example_append] (Some 0) example_world
     = (Inl (MailboxReadOnly ''Frozen''), log_event (Get_mailbox ''Frozen'' True) example_world) \<and>
   sel_readonly (views example_world 1) \<and>
   expunge_mailbox 1 None example_world = (Inl (MailboxReadOnly ''INBOX''), example_world) \<and>
   update_flags 1 (SequenceSet_all False) {Seen} ADD example_world
     = (Inl (MailboxReadOnly ''INBOX''), example_world)"
  using readonly_no_mutation[where name="''Frozen''" and w=example_world and mbx="''Frozen''"
          and ?w1.0="log_event (Get_mailbox ''Frozen'' True) example_world"
          and messages="[example_append]" and selected="Some 0" and v=1 and uid_set=None
          and sequence_set="SequenceSet_all False" and flag_set="{Seen}" and mode=ADD]
  by (simp add: example_get_mailbox)

lemma example_find_results:
  "find_results (SequenceSet_all True) view_0 inbox
     = [(1, 1, Some message_1), (2, 2, None), (3, 3, Some message_3)]"
  "find_results (SequenceSet [(Num 1, Star)] False) view_0 inbox
     = [(1, 1, Some message_1), (2, 2, None), (3, 3, Some message_3)]"
  "find_results (SequenceSet [(Num 2, Num 3)] False) view_0 inbox
     = [(2, 2, None), (3, 3, Some message_3)]"
  "find_results (SequenceSet [(Num 9, Num 9)] True) view_0 inbox = []"
  by code_simp+

lemma example_stored:
  "stored_append (Suc 0) True [example_append]
     = [\<lparr>uid = Suc 0, permanent_flags = {Keyword ''x''}, recent = True, content = ''new''\<rparr>]"
  "stored_append 4 False [example_append]
     = [\<lparr>uid = 4, permanent_flags = {Keyword ''x''}, recent = False, content = ''new''\<rparr>]"
  "stored_copy (Suc 0) True [message_1, message_3]
     = [message_1\<lparr>uid := Suc 0, recent := True\<rparr>, message_3\<lparr>uid := 2, recent := True\<rparr>]"
  "stored_copy 4 False [message_1, message_3]
     = [message_1\<lparr>uid := 4, recent := False\<rparr>, message_3\<lparr>uid := 5, recent := False\<rparr>]"
  by (simp_all add: stored_append_Cons stored_copy_Cons example_append_def)

lemma example_find_selected:
  "find_selected (Some 0) ''Archive'' (log_event ev example_world) = None"
  "find_selected (Some 0) ''Archive'' (log_event ev' (log_event ev example_world)) = None"
  "find_selected (Some 2) ''INBOX'' (log_event ev example_world) = Some 0"
  "find_selected (Some 0) ''INBOX'' (log_event ev' (log_event ev example_world)) = Some 0"
  by (simp_all add: find_selected_def any_selected_def)

theorem recent_ownership_witness:
  "get_mailbox ''Archive'' True example_world
     = (Inr ''Archive'', log_event (Get_mailbox ''Archive'' True) example_world) \<and>
   \<not> mbx_readonly (mailboxes (log_event (Get_mailbox ''Archive'' True) example_world) ''Archive'') \<and>
   mbx_messages (mailboxes (snd (append_messages ''Archive'' [example_append] (Some 0)
                                   example_world)) ''Archive'')
     = [\<lparr>uid = 1, permanent_flags = {Keyword ''x''}, recent = True, content = ''new''\<rparr>] \<and>
   sel_recent (views (snd (append_messages ''Archive'' [example_append] (Some 0)
                             example_world)) 0) = {} \<and>
   mbx_messages (mailboxes (snd (append_messages ''INBOX'' [example_append] (Some 2)
                                   example_world)) ''INBOX'')
     = [message_1, message_3,
        \<lparr>uid = 4, permanent_flags = {Keyword ''x''}, recent = False, content = ''new''\<rparr>] \<and>
   sel_recent (views (snd (append_messages ''INBOX'' [example_append] (Some 2)
                             example_world)) 0) = {4} \<and>
   mbx_messages (mailboxes (snd (copy_messages 0 (SequenceSet_all True) ''Archive''
                                   example_world)) ''Archive'')
     = [message_1\<lparr>uid := 1, recent := True\<rparr>, message_3\<lparr>uid := 2, recent := True\<rparr>] \<and>
   mbx_messages (mailboxes (snd (copy_messages 0 (SequenceSet_all True) ''INBOX''
                                   example_world)) ''INBOX'')
     = [message_1, message_3,
        message_1\<lparr>uid := 4, recent := False\<rparr>, message_3\<lparr>uid := 5, recent := False\<rparr>] \<and>
   sel_recent (views (snd (copy_messages 0 (SequenceSet_all True) ''INBOX''
                             example_world)) 0) = {4, 5}"
  using recent_ownership[where name="''Archive''" and w=example_world and mbx="''Archive''"
          and ?w1.0="log_event (Get_mailbox ''Archive'' True) example_world"
          and messages="[example_append]" and selected="Some 0"
          and v=0 and src="''INBOX''"
          and ?w2.0="log_event (Get_mailbox ''INBOX'' False) example_world"
          and mailbox="''Archive''" and dest="''Archive''"
          and ?w3.0="log_event (Get_mailbox ''Archive'' True)
                       (log_event (Get_mailbox ''INBOX'' False) example_world)"
          and sequence_set="SequenceSet_all True"]
        recent_ownership[where name="''INBOX''" and w=example_world and mbx="''INBOX''"
          and ?w1.0="log_event (Get_mailbox ''INBOX'' True) example_world"
          and messages="[example_append]" and selected="Some 2"
          and v=0 and src="''INBOX''"
          and ?w2.0="log_event (Get_mailbox ''INBOX'' False) example_world"
          and mailbox="''INBOX''" and dest="''INBOX''"
          and ?w3.0="log_event (Get_mailbox ''INBOX'' True)
                       (log_event (Get_mailbox ''INBOX'' False) example_world)"
          and sequence_set="SequenceSet_all True"]
  by (simp add: example_get_mailbox example_find_selected example_find_results example_stored
        Let_def del: upt_Suc)

theorem uidplus_response_witness:
  "get_mailbox ''INBOX'' True example_world
     = (Inr ''INBOX'', log_event (Get_mailbox ''INBOX'' True) example_world) \<and>
   \<not> mbx_readonly (mailboxes (log_event (Get_mailbox ''INBOX'' True) example_world) ''INBOX'') \<and>
   fst (append_messages ''INBOX'' [example_append, example_append] (Some 0) example_world)
     = Inr (AppendUid 7 [4, 5], Some 0) \<and>
   map uid (drop (Suc (Suc 0)) (mbx_messages (mailboxes
       (snd (append_messages ''INBOX'' [example_append, example_append] (Some 0) example_world))
       ''INBOX''))) = [4, 5] \<and>
   fst (copy_messages 0 (SequenceSet_all True) ''Archive'' example_world)
     = Inr (CopyUid 9 [(1, 1), (3, 2)], Some 0) \<and>
   map uid (mbx_messages (mailboxes
       (snd (copy_messages 0 (SequenceSet_all True) ''Archive'' example_world)) ''Archive''))
     = [1, 2]"
  using uidplus_response[where name="''INBOX''" and w=example_world and mbx="''INBOX''"
          and ?w1.0="log_event (Get_mailbox ''INBOX'' True) example_world"
          and messages="[example_append, example_append]" and selected="Some 0"
          and v=0 and src="''INBOX''"
          and ?w2.0="log_event (Get_mailbox ''INBOX'' False) example_world"
          and mailbox="''Archive''" and dest="''Archive''"
          and ?w3.0="log_event (Get_mailbox ''Archive'' True)
                       (log_event (Get_mailbox ''INBOX'' False) example_world)"
          and sequence_set="SequenceSet_all True"]
  by (simp add: example_get_mailbox example_find_results Let_def)

lemma filter_updated_once:
  assumes "tr = pre @ [Updated_set m] @ post"
    and "filter is_updated_event pre = []" and "filter is_updated_event post = []"
  shows "filter is_updated_event tr = [Updated_set m]"
  using assms by simp

theorem updated_event_once_witness:
  "get_mailbox ''Archive'' True example_world
     = (Inr ''Archive'', log_event (Get_mailbox ''Archive'' True) example_world) \<and>
   \<not> sel_readonly (views example_world 0) \<and>
   filter is_updated_event (trace (snd (append_messages ''Archive'' [] (Some 0) example_world)))
     = [Updated_set ''Archive''] \<and>
   mbx_updated (mailboxes (snd (append_messages ''Archive'' [] (Some 0) example_world))
                  ''Archive'') = 1 \<and>
   filter is_updated_event
     (trace (snd (expunge_mailbox 0 (Some (SequenceSet [(Num 9, Num 9)] True)) example_world)))
     = [Updated_set ''INBOX''] \<and>
   mbx_updated (mailboxes
     (snd (expunge_mailbox 0 (Some (SequenceSet [(Num 9, Num 9)] True)) example_world))
     ''INBOX'') = 1 \<and>
   filter is_updated_event
     (trace (snd (copy_messages 0 (SequenceSet [(Num 9, Num 9)] True) ''Archive'' example_world)))
     = [Updated_set ''Archive''] \<and>
   mbx_updated (mailboxes
     (snd (copy_messages 0 (SequenceSet [(Num 9, Num 9)] True) ''Archive'' example_world))
     ''Archive'') = 1 \<and>
   filter is_updated_event
     (trace (snd (update_flags 0 (SequenceSet [(Num 9, Num 9)] True) {Seen} ADD example_world)))
     = [Updated_set ''INBOX''] \<and>
   mbx_updated (mailboxes
     (snd (update_flags 0 (SequenceSet [(Num 9, Num 9)] True) {Seen} ADD example_world))
     ''INBOX'') = 1"
proof -
  note t = updated_event_once[where name="''Archive''" and w=example_world and mbx="''Archive''"
          and ?w1.0="log_event (Get_mailbox ''Archive'' True) example_world"
          and messages="[]" and selected="Some 0"
          and v=0 and src="''INBOX''"
          and ?w2.0="log_event (Get_mailbox ''INBOX'' False) example_world"
          and mailbox="''Archive''" and dest="''Archive''"
          and ?w3.0="log_event (Get_mailbox ''Archive'' True)
                       (log_event (Get_mailbox ''INBOX'' False) example_world)"
          and sequence_set="SequenceSet [(Num 9, Num 9)] True"
          and uid_set="Some (SequenceSet [(Num 9, Num 9)] True)"
          and flag_set="{Seen}" and mode=ADD]
  show ?thesis
    using t by (auto simp: example_get_mailbox)
qed

theorem store_flags_witness:
  "\<not> sel_readonly (views example_world 0) \<and>
   get_mailbox (sel_name (views example_world 0)) False example_world
     = (Inr ''INBOX'', log_event (Get_mailbox ''INBOX'' False) example_world) \<and>
   fst (update_flags 0 (SequenceSet [(Num 2, Num 3)] False) {Seen, Keyword ''k''} ADD
          example_world)
     = Inr ([(2, 2, {}), (3, 3, {Deleted, Seen, Keyword ''k''})], Some 0) \<and>
   sel_session_flags
     (views (snd (update_flags 0 (SequenceSet [(Num 2, Num 3)] False) {Seen, Keyword ''k''} ADD
                    example_world)) 0) 3 = {Seen, Keyword ''k''} \<and>
   sel_permanent_flags (views example_world 0) \<inter> {Keyword ''k''} = {} \<and>
   fst (update_flags 0 (SequenceSet [(Num 2, Num 3)] False) {Keyword ''k''} REMOVE example_world)
     = Inr ([(2, 2, {}), (3, 3, {Deleted})], Some 0)"
  using store_flags[where w=example_world and v=0 and mbx="''INBOX''"
          and ?w1.0="log_event (Get_mailbox ''INBOX'' False) example_world"
          and sequence_set="SequenceSet [(Num 2, Num 3)] False"
          and flag_set="{Seen, Keyword ''k''}" and mode=ADD]
        store_flags[where w=example_world and v=0 and mbx="''INBOX''"
          and ?w1.0="log_event (Get_mailbox ''INBOX'' False) example_world"
          and sequence_set="SequenceSet [(Num 2, Num 3)] False"
          and flag_set="{Keyword ''k''}" and mode=REMOVE]
  by (simp add: example_get_mailbox example_find_results Let_def hit_uids_def session_get_def
        message_3_def insert_commute)

text \<open>
  The claim's last sentence fails for \<open>REPLACE\<close>: with the keyword \<open>k\<close> requested on
  a view that permits \<open>\Seen\<close> and \<open>\Deleted\<close>, the permitted set is empty, and the
  message 1, which had \<open>\Seen\<close>, is updated to no permanent flags at all: the flags
  returned for it are the session flag \<open>k\<close> alone.
\<close>

theorem store_replace_counterexample:
  "sel_permanent_flags (views example_world 0) \<inter> {Keyword ''k''} = {} \<and>
   permanent_flags message_1 = {Seen} \<and>
   fst (msg_update_flags message_1 {} REPLACE example_world)
     = message_1\<lparr>permanent_flags := {}\<rparr> \<and>
   fst (update_flags 0 (SequenceSet [(Num 1, Num 1)] False) {Keyword ''k''} REPLACE example_world)
     = Inr ([(1, 1, {Keyword ''k''})], Some 0) \<and>
   take 4 (trace (snd (update_flags 0 (SequenceSet [(Num 1, Num 1)] False) {Keyword ''k''}
                         REPLACE example_world)))
     = [Get_mailbox ''INBOX'' False, Find ''INBOX'' (SequenceSet [(Num 1, Num 1)] False) 0,
        Update_flags 1 {} REPLACE, Session_update 0 1 {Keyword ''k''} REPLACE]"
  by code_simp

text \<open>
  Claim C7 at a failing input: a FETCH with a \<open>set_seen\<close> attribute of message 3 on
  the writable view 0. \<open>\Seen\<close> is added to the fetched message and the pair is
  returned, but \<open>save_flags\<close> is called with one argument, a generator, and not with
  the message (\<open>select_mailbox\<close> and \<open>update_flags\<close> unpack their lists with \<open>*\<close>):
  the store still holds message 3 without \<open>\Seen\<close>, and so does the refreshed view.
\<close>

theorem fetch_save_flags_divergence:
  "fst (fetch_messages 0 (SequenceSet [(Num 3, Num 3)] False) [FetchAttribute ''BODY[]'' True]
          example_world)
     = Inr ([(3, message_3\<lparr>permanent_flags := {Seen, Deleted}\<rparr>)], Some 0) \<and>
   trace (snd (fetch_messages 0 (SequenceSet [(Num 3, Num 3)] False)
                 [FetchAttribute ''BODY[]'' True] example_world))
     = [Get_mailbox ''INBOX'' False, Find ''INBOX'' (SequenceSet [(Num 3, Num 3)] False) 0,
        Save_flags ''INBOX'' [ArgGenerator [message_3\<lparr>permanent_flags := {Seen, Deleted}\<rparr>]],
        Items ''INBOX'', Add_messages 0 1 {Seen}, Add_messages 0 3 {Deleted}] \<and>
   mbx_messages (mailboxes (snd (fetch_messages 0 (SequenceSet [(Num 3, Num 3)] False)
                                   [FetchAttribute ''BODY[]'' True] example_world)) ''INBOX'')
     = [message_1, message_3]"
  by code_simp

end
